theory Spec2Isabelle
  imports Complex_Main
begin

section \<open>Shared Python values and exceptions\<close>

text \<open>
  The exceptions the modelled code can raise. All of them are subclasses of Python's
  \<open>Exception\<close>, so an \<open>except Exception\<close> clause catches every one.
\<close>

datatype py_exception =
    AttributeError | TypeError | KeyError | IndexError | ValueError | ZeroDivisionError | OSError
  | RequestsTimeout | RequestsConnectionError

text \<open>
  Values that reach the hooks: decoded JSON (\<open>json.loads\<close>) and, inside the hooks,
  \<open>datetime\<close> objects (a timestamp in microseconds). A dict is an association list
  in insertion order. JSON numbers are restricted to integers.
\<close>

datatype pyval =
    PNone
  | PBool bool
  | PInt int
  | PStr string
  | PList "pyval list"
  | PDict "(string \<times> pyval) list"
  | PDatetime int

section \<open>Error classifier (morph_error_handler.py)\<close>

datatype ErrorType =
    SERVER_UNAVAILABLE
  | API_KEY_INVALID
  | TIMEOUT
  | FILE_LOCK
  | PERMISSION_DENIED
  | MEMORY_ERROR
  | NETWORK_ERROR
  | TOOL_MAPPING_ERROR
  | UNKNOWN_ERROR

text \<open>
  \<open>str.lower()\<close> on the ASCII range: the letters A to Z move to a to z, every other
  byte is left as it is.
\<close>

definition lower_char :: "char \<Rightarrow> char" where
  "lower_char c =
     (let n = (of_char c :: nat) in if 65 \<le> n \<and> n \<le> 90 then char_of (n + 32) else c)"

definition lower :: "string \<Rightarrow> string" where
  "lower s = map lower_char s"

fun starts_with :: "string \<Rightarrow> string \<Rightarrow> bool" where
  "starts_with [] s = True"
| "starts_with (k # ks) [] = False"
| "starts_with (k # ks) (c # cs) = (k = c \<and> starts_with ks cs)"

text \<open>\<open>keyword in s\<close> on strings: \<open>keyword\<close> occurs in \<open>s\<close> as a contiguous substring.\<close>

fun str_contains :: "string \<Rightarrow> string \<Rightarrow> bool" where
  "str_contains kw [] = (kw = [])"
| "str_contains kw (c # cs) = (starts_with kw (c # cs) \<or> str_contains kw cs)"

text \<open>\<open>any(keyword in error_lower for keyword in keywords)\<close>\<close>

definition any_keyword :: "string list \<Rightarrow> string \<Rightarrow> bool" where
  "any_keyword keywords error_lower = list_ex (\<lambda>keyword. str_contains keyword error_lower) keywords"

text \<open>\<open>MorphErrorHandler.classify_error\<close>, for a message that is a string.\<close>

definition classify_error :: "string \<Rightarrow> ErrorType" where
  "classify_error error_message =
     (let error_lower = lower error_message in
      if any_keyword [''connection'', ''server'', ''unavailable'', ''unreachable''] error_lower
        then SERVER_UNAVAILABLE
      else if any_keyword [''api key'', ''authentication'', ''unauthorized'', ''forbidden''] error_lower
        then API_KEY_INVALID
      else if any_keyword [''timeout'', ''timed out'', ''deadline''] error_lower
        then TIMEOUT
      else if any_keyword [''file lock'', ''locked'', ''busy''] error_lower
        then FILE_LOCK
      else if any_keyword [''permission'', ''access denied'', ''not permitted''] error_lower
        then PERMISSION_DENIED
      else if any_keyword [''memory'', ''out of memory'', ''allocation''] error_lower
        then MEMORY_ERROR
      else if any_keyword [''network'', ''dns'', ''connection reset''] error_lower
        then NETWORK_ERROR
      else if any_keyword [''tool mapping'', ''invalid tool'', ''unknown tool''] error_lower
        then TOOL_MAPPING_ERROR
      else UNKNOWN_ERROR)"

text \<open>
  The documented group order of the specification (connectivity, auth, timeout, file-lock,
  permission, memory, network, tool-mapping), as a table, and "first matching group wins,
  Unknown if none matches" over such a table.
\<close>

definition keyword_groups :: "(string list \<times> ErrorType) list" where
  "keyword_groups =
     [([''connection'', ''server'', ''unavailable'', ''unreachable''], SERVER_UNAVAILABLE),
      ([''api key'', ''authentication'', ''unauthorized'', ''forbidden''], API_KEY_INVALID),
      ([''timeout'', ''timed out'', ''deadline''], TIMEOUT),
      ([''file lock'', ''locked'', ''busy''], FILE_LOCK),
      ([''permission'', ''access denied'', ''not permitted''], PERMISSION_DENIED),
      ([''memory'', ''out of memory'', ''allocation''], MEMORY_ERROR),
      ([''network'', ''dns'', ''connection reset''], NETWORK_ERROR),
      ([''tool mapping'', ''invalid tool'', ''unknown tool''], TOOL_MAPPING_ERROR)]"

fun first_matching_group :: "(string list \<times> ErrorType) list \<Rightarrow> string \<Rightarrow> ErrorType" where
  "first_matching_group [] s = UNKNOWN_ERROR"
| "first_matching_group ((keywords, kind) # groups) s =
     (if any_keyword keywords s then kind else first_matching_group groups s)"

section \<open>Bounded TTL cache (performance_optimizer.py, class LRUCache)\<close>

text \<open>
  The \<open>OrderedDict\<close> of the cache is an association list from key to
  (value, insertion time), oldest entry first: the list order is the recency order.
  Times are the seconds of \<open>time.time()\<close>, taken as exact reals.
\<close>

record 'v LRUCache =
  max_size :: int
  ttl_seconds :: int
  cache :: "(string \<times> 'v \<times> real) list"
  hits :: int
  misses :: int

text \<open>\<open>LRUCache.__init__\<close>\<close>

definition LRUCache_init :: "int \<Rightarrow> int \<Rightarrow> 'v LRUCache" where
  "LRUCache_init m t = \<lparr>max_size = m, ttl_seconds = t, cache = [], hits = 0, misses = 0\<rparr>"

text \<open>\<open>key in d\<close>, \<open>del d[key]\<close>, \<open>d.move_to_end(key)\<close> and \<open>d[key] = e\<close> on an ordered dict.
  The source calls \<open>del\<close> and \<open>move_to_end\<close> under the guard \<open>key in d\<close> only.\<close>

definition key_in :: "string \<Rightarrow> (string \<times> 'e) list \<Rightarrow> bool" where
  "key_in key d = (map_of d key \<noteq> None)"

definition od_delete :: "string \<Rightarrow> (string \<times> 'e) list \<Rightarrow> (string \<times> 'e) list" where
  "od_delete key d = filter (\<lambda>p. fst p \<noteq> key) d"

definition move_to_end :: "string \<Rightarrow> (string \<times> 'e) list \<Rightarrow> (string \<times> 'e) list" where
  "move_to_end key d = (case map_of d key of None \<Rightarrow> d | Some e \<Rightarrow> od_delete key d @ [(key, e)])"

definition od_assign :: "string \<Rightarrow> 'e \<Rightarrow> (string \<times> 'e) list \<Rightarrow> (string \<times> 'e) list" where
  "od_assign key e d =
     (if key_in key d then map (\<lambda>p. if fst p = key then (key, e) else p) d else d @ [(key, e)])"

text \<open>\<open>d.popitem(last=False)\<close>: removes the first (oldest) item, KeyError on an empty dict.\<close>

definition popitem_first :: "'a list \<Rightarrow> py_exception + 'a list" where
  "popitem_first d = (case d of [] \<Rightarrow> Inl KeyError | x # rest \<Rightarrow> Inr rest)"

text \<open>\<open>LRUCache.get\<close>, called at time \<open>now\<close>: the returned value and the cache after the call.\<close>

definition LRUCache_get :: "real \<Rightarrow> string \<Rightarrow> 'v LRUCache \<Rightarrow> 'v option \<times> 'v LRUCache" where
  "LRUCache_get now key c =
     (case map_of (cache c) key of
        Some (val, timestamp) \<Rightarrow>
          if now - timestamp < real_of_int (ttl_seconds c)
          then (Some val, c\<lparr>cache := move_to_end key (cache c), hits := hits c + 1\<rparr>)
          else (None, c\<lparr>cache := od_delete key (cache c), misses := misses c + 1\<rparr>)
      | None \<Rightarrow> (None, c\<lparr>misses := misses c + 1\<rparr>))"

text \<open>\<open>LRUCache.set\<close>, called at time \<open>now\<close>.\<close>

definition LRUCache_set :: "real \<Rightarrow> string \<Rightarrow> 'v \<Rightarrow> 'v LRUCache \<Rightarrow> py_exception + 'v LRUCache" where
  "LRUCache_set now key val c =
     (let d1 = (if key_in key (cache c) then move_to_end key (cache c) else cache c);
          d2 = od_assign key (val, now) d1
      in if int (length d2) > max_size c
         then (case popitem_first d2 of Inl e \<Rightarrow> Inl e | Inr d3 \<Rightarrow> Inr (c\<lparr>cache := d3\<rparr>))
         else Inr (c\<lparr>cache := d2\<rparr>))"

text \<open>\<open>LRUCache.get_stats\<close>; the division is Python's true division, taken over the reals.\<close>

record cache_stats =
  stats_hits :: int
  stats_misses :: int
  hit_rate :: real
  stats_size :: nat
  stats_max_size :: int

definition LRUCache_get_stats :: "'v LRUCache \<Rightarrow> cache_stats" where
  "LRUCache_get_stats c =
     (let total = hits c + misses c;
          rate = (if total > 0 then real_of_int (hits c) / real_of_int total * 100 else 0)
      in \<lparr>stats_hits = hits c, stats_misses = misses c, hit_rate = rate,
          stats_size = length (cache c), stats_max_size = max_size c\<rparr>)"

text \<open>A sequence of calls on one cache instance, each with the time at which it is made.\<close>

datatype 'v cache_op = OpGet string real | OpSet string 'v real

fun apply_op :: "'v LRUCache \<Rightarrow> 'v cache_op \<Rightarrow> py_exception + 'v LRUCache" where
  "apply_op c (OpGet key now) = Inr (snd (LRUCache_get now key c))"
| "apply_op c (OpSet key val now) = LRUCache_set now key val c"

fun run_ops :: "'v LRUCache \<Rightarrow> 'v cache_op list \<Rightarrow> py_exception + 'v LRUCache" where
  "run_ops c [] = Inr c"
| "run_ops c (x # xs) = (case apply_op c x of Inl e \<Rightarrow> Inl e | Inr c' \<Rightarrow> run_ops c' xs)"

text \<open>
  When each key was last used, read off the calls themselves and not off the order of the
  stored entries: a \<open>set\<close> uses its key, and a \<open>get\<close> uses its key when it returns the
  stored value (the key is stored and its entry has not expired). \<open>run_ops_logged\<close> runs
  a sequence of calls as \<open>run_ops\<close> does and notes for every key the number of the last
  call that used it (calls are numbered from \<open>step\<close> on).
\<close>

definition is_hit :: "'v LRUCache \<Rightarrow> string \<Rightarrow> real \<Rightarrow> bool" where
  "is_hit c key now =
     (case map_of (cache c) key of
        None \<Rightarrow> False
      | Some (val, timestamp) \<Rightarrow> now - timestamp < real_of_int (ttl_seconds c))"

fun used_key :: "'v LRUCache \<Rightarrow> 'v cache_op \<Rightarrow> string option" where
  "used_key c (OpSet key val now) = Some key"
| "used_key c (OpGet key now) = (if is_hit c key now then Some key else None)"

definition note_use :: "(string \<Rightarrow> nat) \<Rightarrow> nat \<Rightarrow> string option \<Rightarrow> (string \<Rightarrow> nat)" where
  "note_use last_use step used = (case used of None \<Rightarrow> last_use | Some key \<Rightarrow> last_use(key := step))"

fun run_ops_logged ::
  "'v LRUCache \<Rightarrow> (string \<Rightarrow> nat) \<Rightarrow> nat \<Rightarrow> 'v cache_op list
     \<Rightarrow> py_exception + 'v LRUCache \<times> (string \<Rightarrow> nat)" where
  "run_ops_logged c last_use step [] = Inr (c, last_use)"
| "run_ops_logged c last_use step (x # xs) =
     (case apply_op c x of
        Inl e \<Rightarrow> Inl e
      | Inr c' \<Rightarrow> run_ops_logged c' (note_use last_use step (used_key c x)) (Suc step) xs)"

text \<open>
  The stored entries are in recency order when every entry was last used before all the
  entries behind it; an entry is the least recently used one when no stored entry was last
  used before it.
\<close>

definition in_recency_order :: "(string \<Rightarrow> nat) \<Rightarrow> (string \<times> 'e) list \<Rightarrow> bool" where
  "in_recency_order last_use d = sorted_wrt (\<lambda>p q. last_use (fst p) < last_use (fst q)) d"

definition least_recently_used :: "(string \<Rightarrow> nat) \<Rightarrow> (string \<times> 'e) list \<Rightarrow> string \<times> 'e \<Rightarrow> bool" where
  "least_recently_used last_use d p =
     (p \<in> set d \<and> list_all (\<lambda>q. last_use (fst p) \<le> last_use (fst q)) d)"

text \<open>
  The invariant of a run: the stored entries are in recency order and every stored key was
  last used by a call before the next one.
\<close>

definition recency_invariant :: "'v LRUCache \<Rightarrow> (string \<Rightarrow> nat) \<Rightarrow> nat \<Rightarrow> bool" where
  "recency_invariant c last_use step =
     (in_recency_order last_use (cache c) \<and> list_all (\<lambda>p. last_use (fst p) < step) (cache c))"

text \<open>The number of \<open>get\<close> calls in a sequence of calls.\<close>

fun is_get :: "'v cache_op \<Rightarrow> bool" where
  "is_get (OpGet key now) = True"
| "is_get (OpSet key val now) = False"

definition count_gets :: "'v cache_op list \<Rightarrow> nat" where
  "count_gets xs = length (filter is_get xs)"

section \<open>Performance monitor (performance_optimizer.py, class PerformanceMonitor)\<close>

type_synonym metrics = "string \<rightharpoonup> real list"

text \<open>\<open>PerformanceMonitor.record_timing\<close>: append, then keep the last 1000 samples.\<close>

definition record_timing :: "string \<Rightarrow> real \<Rightarrow> metrics \<Rightarrow> metrics" where
  "record_timing operation duration_ms m =
     (let xs = (case m operation of None \<Rightarrow> [] | Some ts \<Rightarrow> ts) @ [duration_ms]
      in m(operation \<mapsto> (if length xs > 1000 then drop (length xs - 1000) xs else xs)))"

text \<open>The list operations of \<open>get_stats\<close>, each with the exception Python raises.\<close>

definition py_min :: "real list \<Rightarrow> py_exception + real" where
  "py_min xs = (case xs of [] \<Rightarrow> Inl ValueError | x # rest \<Rightarrow> Inr (fold min rest x))"

definition py_max :: "real list \<Rightarrow> py_exception + real" where
  "py_max xs = (case xs of [] \<Rightarrow> Inl ValueError | x # rest \<Rightarrow> Inr (fold max rest x))"

definition py_avg :: "real list \<Rightarrow> py_exception + real" where
  "py_avg xs = (if length xs = 0 then Inl ZeroDivisionError else Inr (sum_list xs / real (length xs)))"

definition py_index :: "'a list \<Rightarrow> nat \<Rightarrow> py_exception + 'a" where
  "py_index xs i = (if i < length xs then Inr (xs ! i) else Inl IndexError)"

definition and_then :: "py_exception + 'a \<Rightarrow> ('a \<Rightarrow> py_exception + 'b) \<Rightarrow> py_exception + 'b" where
  "and_then r f = (case r of Inl e \<Rightarrow> Inl e | Inr x \<Rightarrow> f x)"

text \<open>
  The percentile indices \<open>int(n * 0.95)\<close> and \<open>int(n * 0.99)\<close>. The double nearest to 0.95
  (0.99) lies below it by a relative error under \<open>2^-54\<close>, so for every list length the
  rounded product has the integer part of the exact \<open>95 n / 100\<close> (\<open>99 n / 100\<close>).
\<close>

definition p95_index :: "nat \<Rightarrow> nat" where
  "p95_index n = (n * 95) div 100"

definition p99_index :: "nat \<Rightarrow> nat" where
  "p99_index n = (n * 99) div 100"

record timing_stats =
  count :: nat
  min_ms :: real
  max_ms :: real
  avg :: real
  p50 :: real
  p95 :: real
  p99 :: real

text \<open>\<open>PerformanceMonitor.get_stats\<close>; the empty dict \<open>{}\<close> is \<open>None\<close>.\<close>

definition PerformanceMonitor_get_stats :: "metrics \<Rightarrow> string \<Rightarrow> py_exception + timing_stats option" where
  "PerformanceMonitor_get_stats m operation =
     (case m operation of
        None \<Rightarrow> Inr None
      | Some timings \<Rightarrow>
          if timings = [] then Inr None
          else
            (let timings_sorted = sort timings in
             and_then (py_min timings) (\<lambda>mn.
             and_then (py_max timings) (\<lambda>mx.
             and_then (py_avg timings) (\<lambda>av.
             and_then (py_index timings_sorted (length timings_sorted div 2)) (\<lambda>q50.
             and_then (py_index timings_sorted (p95_index (length timings_sorted))) (\<lambda>q95.
             and_then (py_index timings_sorted (p99_index (length timings_sorted))) (\<lambda>q99.
               Inr (Some \<lparr>count = length timings, min_ms = mn, max_ms = mx, avg = av,
                          p50 = q50, p95 = q95, p99 = q99\<rparr>)))))))))"

text \<open>The fixture of the specification: 100 samples with the values 1 to 100.\<close>

definition fixture_1_100 :: "real list" where
  "fixture_1_100 = map real [1..<101]"

section \<open>Error handler (morph_error_handler.py, class MorphErrorHandler)\<close>

datatype FallbackStrategy =
    NATIVE_TOOL
  | RETRY_WITH_BACKOFF
  | BATCH_OPERATION
  | ALTERNATIVE_TOOL
  | GRACEFUL_DEGRADATION
  | FAIL_FAST

text \<open>The entries of \<open>self.config\<close> that the code reads.\<close>

record config =
  max_retry_attempts :: int
  retry_delay_seconds :: "int list"
  enable_circuit_breaker :: bool
  circuit_breaker_failure_threshold :: int
  circuit_breaker_reset_timeout :: int

definition default_config :: config where
  "default_config =
     \<lparr>max_retry_attempts = 3, retry_delay_seconds = [1, 2, 4], enable_circuit_breaker = True,
      circuit_breaker_failure_threshold = 5, circuit_breaker_reset_timeout = 300\<rparr>"

definition tool_fallback_mapping :: "(string \<times> string) list" where
  "tool_fallback_mapping =
     [(''mcp__morph__read_file'', ''Read''),
      (''mcp__morph__write_file'', ''Write''),
      (''mcp__morph__edit_file'', ''Edit''),
      (''mcp__morph__list_directory'', ''LS''),
      (''mcp__morph__search_files'', ''Glob'')]"

text \<open>\<open>self.error_strategies\<close>: the table has an entry for every member of the enumeration.\<close>

fun error_strategies :: "ErrorType \<Rightarrow> FallbackStrategy" where
  "error_strategies SERVER_UNAVAILABLE = NATIVE_TOOL"
| "error_strategies API_KEY_INVALID = NATIVE_TOOL"
| "error_strategies TIMEOUT = RETRY_WITH_BACKOFF"
| "error_strategies FILE_LOCK = RETRY_WITH_BACKOFF"
| "error_strategies PERMISSION_DENIED = NATIVE_TOOL"
| "error_strategies MEMORY_ERROR = GRACEFUL_DEGRADATION"
| "error_strategies NETWORK_ERROR = RETRY_WITH_BACKOFF"
| "error_strategies TOOL_MAPPING_ERROR = ALTERNATIVE_TOOL"
| "error_strategies UNKNOWN_ERROR = NATIVE_TOOL"

record ErrorContext =
  tool_name :: pyval
  tool_input :: pyval
  error_type :: ErrorType
  error_message :: string
  timestamp :: int
  session_id :: string
  retry_count :: int
  fallback_attempted :: bool

text \<open>
  The persisted statistics document (\<open>morph_fallback_stats.json\<close>). The file is modelled
  by the document it holds: a missing or unreadable file is \<open>default_stats\<close>, which is what
  \<open>load_fallback_stats\<close> returns then, and \<open>save_fallback_stats\<close> replaces the document.
  Times (\<open>datetime.now()\<close>, and the ISO strings written from it) are microseconds; the
  per-kind tables are keyed by the error kind instead of its \<open>value\<close> string.
\<close>

record circuit_state =
  failure_count :: int
  last_failure :: "int option"

record fallback_stats =
  total_errors :: int
  error_types :: "ErrorType \<rightharpoonup> int"
  fallback_strategies :: "string \<rightharpoonup> int"
  circuit_breaker :: "ErrorType \<rightharpoonup> circuit_state"
  last_error :: "int option"

definition default_stats :: fallback_stats where
  "default_stats =
     \<lparr>total_errors = 0, error_types = Map.empty, fallback_strategies = Map.empty,
      circuit_breaker = Map.empty, last_error = None\<rparr>"

text \<open>\<open>circuit_state.get("failure_count", 0)\<close> and \<open>circuit_state.get("last_failure")\<close>
  on \<open>stats.get("circuit_breaker", {}).get(error_type.value, {})\<close>.\<close>

definition persisted_failure_count :: "fallback_stats \<Rightarrow> ErrorType \<Rightarrow> int" where
  "persisted_failure_count stats kind =
     (case circuit_breaker stats kind of None \<Rightarrow> 0 | Some st \<Rightarrow> failure_count st)"

definition persisted_last_failure :: "fallback_stats \<Rightarrow> ErrorType \<Rightarrow> int option" where
  "persisted_last_failure stats kind =
     (case circuit_breaker stats kind of None \<Rightarrow> None | Some st \<Rightarrow> last_failure st)"

text \<open>\<open>MorphErrorHandler.is_circuit_breaker_open\<close>, called at time \<open>now\<close>;
  \<open>timedelta(seconds=n)\<close> is \<open>n * 1000000\<close> microseconds.\<close>

definition is_circuit_breaker_open :: "config \<Rightarrow> fallback_stats \<Rightarrow> int \<Rightarrow> ErrorType \<Rightarrow> bool" where
  "is_circuit_breaker_open cfg stats now kind =
     (if \<not> enable_circuit_breaker cfg then False
      else if persisted_failure_count stats kind \<ge> circuit_breaker_failure_threshold cfg
      then (case persisted_last_failure stats kind of
              None \<Rightarrow> False
            | Some last_failure_time \<Rightarrow>
                if now - last_failure_time < circuit_breaker_reset_timeout cfg * 1000000
                then True else False)
      else False)"

text \<open>\<open>MorphErrorHandler.update_circuit_breaker\<close>, called at time \<open>now\<close>.\<close>

definition update_circuit_breaker ::
  "config \<Rightarrow> fallback_stats \<Rightarrow> int \<Rightarrow> ErrorType \<Rightarrow> bool \<Rightarrow> fallback_stats" where
  "update_circuit_breaker cfg stats now kind is_failure =
     (if \<not> enable_circuit_breaker cfg then stats
      else
        (let st = (case circuit_breaker stats kind of
                     None \<Rightarrow> \<lparr>failure_count = 0, last_failure = None\<rparr>
                   | Some st0 \<Rightarrow> st0);
             st' = (if is_failure
                    then st\<lparr>failure_count := failure_count st + 1, last_failure := Some now\<rparr>
                    else st\<lparr>failure_count := 0, last_failure := None\<rparr>)
         in stats\<lparr>circuit_breaker := (circuit_breaker stats)(kind \<mapsto> st')\<rparr>))"

text \<open>\<open>MorphErrorHandler.update_fallback_stats\<close>\<close>

definition update_fallback_stats ::
  "fallback_stats \<Rightarrow> int \<Rightarrow> ErrorContext \<Rightarrow> string \<Rightarrow> fallback_stats" where
  "update_fallback_stats stats now ctx strategy =
     stats\<lparr>total_errors := total_errors stats + 1,
           error_types := (error_types stats)(error_type ctx \<mapsto>
              (case error_types stats (error_type ctx) of None \<Rightarrow> 0 | Some n \<Rightarrow> n) + 1),
           fallback_strategies := (fallback_strategies stats)(strategy \<mapsto>
              (case fallback_strategies stats strategy of None \<Rightarrow> 0 | Some n \<Rightarrow> n) + 1),
           last_error := Some now\<rparr>"

text \<open>\<open>MorphErrorHandler.get_fallback_strategy\<close>\<close>

definition get_fallback_strategy ::
  "config \<Rightarrow> fallback_stats \<Rightarrow> int \<Rightarrow> ErrorContext \<Rightarrow> FallbackStrategy" where
  "get_fallback_strategy cfg stats now ctx =
     (if is_circuit_breaker_open cfg stats now (error_type ctx) then NATIVE_TOOL
      else
        (let strategy = error_strategies (error_type ctx)
         in if retry_count ctx \<ge> max_retry_attempts cfg
            then (if strategy = RETRY_WITH_BACKOFF then NATIVE_TOOL else strategy)
            else strategy))"

subsection \<open>Python operations on the decoded inputs\<close>

text \<open>Lists and dicts are unhashable: using one as a dict key raises TypeError.\<close>

definition hashable :: "pyval \<Rightarrow> bool" where
  "hashable v = (case v of PList xs \<Rightarrow> False | PDict kvs \<Rightarrow> False | _ \<Rightarrow> True)"

text \<open>\<open>d.get(k)\<close> on a dict \<open>d\<close> whose keys are strings, for an arbitrary value \<open>k\<close>.\<close>

definition const_dict_get :: "(string \<times> 'a) list \<Rightarrow> pyval \<Rightarrow> py_exception + 'a option" where
  "const_dict_get d k =
     (if \<not> hashable k then Inl TypeError
      else (case k of PStr name \<Rightarrow> Inr (map_of d name) | _ \<Rightarrow> Inr None))"

text \<open>\<open>k in v\<close> for a string \<open>k\<close>: key test on a dict, membership on a list, substring
  test on a string, TypeError on a value that is not a container.\<close>

definition py_in :: "string \<Rightarrow> pyval \<Rightarrow> py_exception + bool" where
  "py_in k v =
     (case v of
        PDict kvs \<Rightarrow> Inr (key_in k kvs)
      | PList xs \<Rightarrow> Inr (PStr k \<in> set xs)
      | PStr str \<Rightarrow> Inr (str_contains k str)
      | _ \<Rightarrow> Inl TypeError)"

text \<open>\<open>v[k]\<close> for a string \<open>k\<close>.\<close>

definition py_subscript :: "pyval \<Rightarrow> string \<Rightarrow> py_exception + pyval" where
  "py_subscript v k =
     (case v of
        PDict kvs \<Rightarrow> (case map_of kvs k of None \<Rightarrow> Inl KeyError | Some x \<Rightarrow> Inr x)
      | _ \<Rightarrow> Inl TypeError)"

definition py_len :: "pyval \<Rightarrow> py_exception + int" where
  "py_len v =
     (case v of
        PStr str \<Rightarrow> Inr (int (length str))
      | PList xs \<Rightarrow> Inr (int (length xs))
      | PDict kvs \<Rightarrow> Inr (int (length kvs))
      | _ \<Rightarrow> Inl TypeError)"

text \<open>\<open>v.copy()\<close>: dicts and lists have the method, the other values do not.\<close>

definition py_copy :: "pyval \<Rightarrow> py_exception + pyval" where
  "py_copy v = (case v of PDict kvs \<Rightarrow> Inr v | PList xs \<Rightarrow> Inr v | _ \<Rightarrow> Inl AttributeError)"

text \<open>\<open>v.pop(k, None)\<close> and \<open>v[k] = x\<close> on a copy, that is on a dict or a list; a list
  accepts neither call.\<close>

definition py_pop_default :: "pyval \<Rightarrow> string \<Rightarrow> py_exception + pyval" where
  "py_pop_default v k = (case v of PDict kvs \<Rightarrow> Inr (PDict (od_delete k kvs)) | _ \<Rightarrow> Inl TypeError)"

definition py_setitem :: "pyval \<Rightarrow> string \<Rightarrow> pyval \<Rightarrow> py_exception + pyval" where
  "py_setitem v k x = (case v of PDict kvs \<Rightarrow> Inr (PDict (od_assign k x kvs)) | _ \<Rightarrow> Inl TypeError)"

text \<open>\<open>xs[i]\<close> on a list with an integer index, which counts from the end when negative.\<close>

definition py_getitem :: "'a list \<Rightarrow> int \<Rightarrow> py_exception + 'a" where
  "py_getitem xs i =
     (if 0 \<le> i \<and> i < int (length xs) then Inr (xs ! nat i)
      else if i < 0 \<and> 0 \<le> i + int (length xs) then Inr (xs ! nat (i + int (length xs)))
      else Inl IndexError)"

subsection \<open>Fallback strategies\<close>

text \<open>
  The action descriptors the handler returns, by their \<open>action\<close> key. The free-text keys
  (\<open>reason\<close>, \<open>performance_note\<close>, \<open>original_error\<close>, \<open>recovery_suggestion\<close>,
  \<open>degradation_type\<close>) are left out; \<open>ultimate_fallback\<close> is False where the dict has no
  such key.
\<close>

datatype response =
    Fallback (fallback_tool: string) (fallback_input: pyval) (ultimate_fallback: bool)
  | Retry (retry_delay: int) (next_retry_count: int) (max_retries: int)
  | SplitBatch (batch_size: int) (original_batch_size: int)
  | Alternative (alternative_tool: string) (alternative_input: pyval)
  | Degrade (degraded_input: pyval)
  | Fail (error: string) (failed_type: ErrorType)

fun action :: "response \<Rightarrow> string" where
  "action (Fallback t i u) = ''fallback''"
| "action (Retry d n m) = ''retry''"
| "action (SplitBatch b n) = ''split_batch''"
| "action (Alternative t i) = ''alternative''"
| "action (Degrade i) = ''degrade''"
| "action (Fail m k) = ''fail''"

text \<open>
  Every strategy returns its result, or the exception it raised, together with the
  statistics document as it is when the method exits.
\<close>

type_synonym outcome = "(py_exception + response) \<times> fallback_stats"

text \<open>\<open>MorphErrorHandler.fallback_to_native_tool\<close>\<close>

definition fallback_to_native_tool :: "fallback_stats \<Rightarrow> int \<Rightarrow> ErrorContext \<Rightarrow> outcome" where
  "fallback_to_native_tool stats now ctx =
     (case const_dict_get tool_fallback_mapping (tool_name ctx) of
        Inl e \<Rightarrow> (Inl e, stats)
      | Inr found \<Rightarrow>
          (let native_tool = (case found of None \<Rightarrow> ''Read'' | Some t \<Rightarrow> t)
           in (Inr (Fallback native_tool (tool_input ctx) False),
               update_fallback_stats stats now ctx ''native_tool'')))"

text \<open>\<open>MorphErrorHandler.retry_with_backoff\<close>\<close>

definition retry_with_backoff :: "config \<Rightarrow> fallback_stats \<Rightarrow> int \<Rightarrow> ErrorContext \<Rightarrow> outcome" where
  "retry_with_backoff cfg stats now ctx =
     (if retry_count ctx \<ge> max_retry_attempts cfg then fallback_to_native_tool stats now ctx
      else
        (case py_getitem (retry_delay_seconds cfg)
                (min (retry_count ctx) (int (length (retry_delay_seconds cfg)) - 1)) of
           Inl e \<Rightarrow> (Inl e, stats)
         | Inr delay \<Rightarrow> (Inr (Retry delay (retry_count ctx + 1) (max_retry_attempts cfg)), stats)))"

text \<open>\<open>MorphErrorHandler.handle_batch_operation\<close>: first the part that decides whether the
  batch is split (\<open>None\<close>: it is not), then the method.\<close>

definition split_batch :: "pyval \<Rightarrow> py_exception + response option" where
  "split_batch inp =
     and_then (py_in ''edits'' inp) (\<lambda>has_edits.
       if has_edits then
         and_then (py_subscript inp ''edits'') (\<lambda>edits.
         and_then (py_len edits) (\<lambda>n.
           if n > 1 then Inr (Some (SplitBatch (max 1 (n div 2)) n)) else Inr None))
       else Inr None)"

definition handle_batch_operation :: "fallback_stats \<Rightarrow> int \<Rightarrow> ErrorContext \<Rightarrow> outcome" where
  "handle_batch_operation stats now ctx =
     (case split_batch (tool_input ctx) of
        Inl e \<Rightarrow> (Inl e, stats)
      | Inr (Some r) \<Rightarrow> (Inr r, stats)
      | Inr None \<Rightarrow> fallback_to_native_tool stats now ctx)"

text \<open>\<open>MorphErrorHandler.adapt_input_for_alternative\<close>\<close>

definition adapt_input_for_alternative :: "pyval \<Rightarrow> string \<Rightarrow> py_exception + pyval" where
  "adapt_input_for_alternative original_input alt =
     and_then (py_copy original_input) (\<lambda>adapted_input.
       if alt = ''mcp__morph__write_file''
       then and_then (py_pop_default adapted_input ''old_string'') (\<lambda>a1.
              py_pop_default a1 ''new_string'')
       else Inr adapted_input)"

definition alternative_tools :: "(string \<times> string) list" where
  "alternative_tools =
     [(''mcp__morph__edit_file'', ''mcp__morph__write_file''),
      (''mcp__morph__search_files'', ''mcp__morph__list_directory'')]"

text \<open>\<open>MorphErrorHandler.use_alternative_tool\<close>: the part that finds an alternative
  (\<open>None\<close>: there is none), then the method.\<close>

definition find_alternative :: "ErrorContext \<Rightarrow> py_exception + response option" where
  "find_alternative ctx =
     (if error_type ctx = TOOL_MAPPING_ERROR then
        and_then (const_dict_get alternative_tools (tool_name ctx)) (\<lambda>found.
          case found of
            None \<Rightarrow> Inr None
          | Some alt \<Rightarrow>
              if alt = [] then Inr None
              else and_then (adapt_input_for_alternative (tool_input ctx) alt) (\<lambda>adapted.
                     Inr (Some (Alternative alt adapted))))
      else Inr None)"

definition use_alternative_tool :: "fallback_stats \<Rightarrow> int \<Rightarrow> ErrorContext \<Rightarrow> outcome" where
  "use_alternative_tool stats now ctx =
     (case find_alternative ctx of
        Inl e \<Rightarrow> (Inl e, stats)
      | Inr (Some r) \<Rightarrow> (Inr r, stats)
      | Inr None \<Rightarrow> fallback_to_native_tool stats now ctx)"

text \<open>\<open>MorphErrorHandler.graceful_degradation\<close>\<close>

definition graceful_degradation :: "fallback_stats \<Rightarrow> int \<Rightarrow> ErrorContext \<Rightarrow> outcome" where
  "graceful_degradation stats now ctx =
     (if error_type ctx = MEMORY_ERROR then
        (and_then (py_copy (tool_input ctx)) (\<lambda>modified_input.
         and_then (py_in ''limit'' modified_input) (\<lambda>has_limit.
         and_then (if \<not> has_limit then py_setitem modified_input ''limit'' (PInt 1000)
                   else Inr modified_input) (\<lambda>degraded.
           Inr (Degrade degraded)))), stats)
      else fallback_to_native_tool stats now ctx)"

text \<open>\<open>MorphErrorHandler.fail_fast\<close>\<close>

definition fail_fast :: "fallback_stats \<Rightarrow> ErrorContext \<Rightarrow> outcome" where
  "fail_fast stats ctx = (Inr (Fail (error_message ctx) (error_type ctx)), stats)"

text \<open>\<open>MorphErrorHandler.execute_fallback_strategy\<close>\<close>

fun execute_fallback_strategy ::
  "config \<Rightarrow> fallback_stats \<Rightarrow> int \<Rightarrow> ErrorContext \<Rightarrow> FallbackStrategy \<Rightarrow> outcome" where
  "execute_fallback_strategy cfg stats now ctx NATIVE_TOOL = fallback_to_native_tool stats now ctx"
| "execute_fallback_strategy cfg stats now ctx RETRY_WITH_BACKOFF = retry_with_backoff cfg stats now ctx"
| "execute_fallback_strategy cfg stats now ctx BATCH_OPERATION = handle_batch_operation stats now ctx"
| "execute_fallback_strategy cfg stats now ctx ALTERNATIVE_TOOL = use_alternative_tool stats now ctx"
| "execute_fallback_strategy cfg stats now ctx GRACEFUL_DEGRADATION = graceful_degradation stats now ctx"
| "execute_fallback_strategy cfg stats now ctx FAIL_FAST = fail_fast stats ctx"

subsection \<open>The entry point\<close>

text \<open>
  \<open>MorphErrorHandler.create_error_context\<close>, with \<open>classify_error\<close> on the decoded
  message: \<open>error_message.lower()\<close> raises AttributeError on a value that is not a string.
\<close>

definition create_error_context ::
  "string \<Rightarrow> int \<Rightarrow> pyval \<Rightarrow> pyval \<Rightarrow> pyval \<Rightarrow> py_exception + ErrorContext" where
  "create_error_context sid now name inp msg =
     (case msg of
        PStr text \<Rightarrow>
          Inr \<lparr>tool_name = name, tool_input = inp, error_type = classify_error text,
               error_message = text, timestamp = now, session_id = sid,
               retry_count = 0, fallback_attempted = False\<rparr>
      | _ \<Rightarrow> Inl AttributeError)"

text \<open>
  The body of the \<open>try\<close> block of \<open>MorphErrorHandler.handle_error\<close>. \<open>log_error\<close> only
  appends to the error log and swallows a failed write, so it is left out.
\<close>

definition handle_error_try ::
  "config \<Rightarrow> fallback_stats \<Rightarrow> string \<Rightarrow> int \<Rightarrow> pyval \<Rightarrow> pyval \<Rightarrow> pyval \<Rightarrow> outcome" where
  "handle_error_try cfg stats sid now name inp msg =
     (case create_error_context sid now name inp msg of
        Inl e \<Rightarrow> (Inl e, stats)
      | Inr error_context \<Rightarrow>
          (let strategy = get_fallback_strategy cfg stats now error_context
           in case execute_fallback_strategy cfg stats now error_context strategy of
                (Inl e, stats1) \<Rightarrow> (Inl e, stats1)
              | (Inr r, stats1) \<Rightarrow>
                  (Inr r, update_circuit_breaker cfg stats1 now (error_type error_context) True)))"

text \<open>
  The \<open>except Exception\<close> handler of \<open>handle_error\<close>: \<open>logger.error\<close> (the logging
  module swallows a failed write of a record), then \<open>traceback.print_exc()\<close>, which writes
  to \<open>sys.stderr\<close> and raises what that write raises, then the return of the ultimate
  fallback. \<open>stderr_failure\<close> is the exception a write to \<open>sys.stderr\<close> raises in the
  process, \<open>None\<close> when the write succeeds.
\<close>

definition handle_error_except :: "py_exception option \<Rightarrow> pyval \<Rightarrow> py_exception + response" where
  "handle_error_except stderr_failure inp =
     (case stderr_failure of
        Some e \<Rightarrow> Inl e
      | None \<Rightarrow> Inr (Fallback ''Read'' inp True))"

text \<open>
  \<open>MorphErrorHandler.handle_error\<close>: the \<open>try\<close> block under \<open>except Exception\<close>; what
  the handler raises leaves the method.
\<close>

definition handle_error ::
  "config \<Rightarrow> fallback_stats \<Rightarrow> py_exception option \<Rightarrow> string \<Rightarrow> int \<Rightarrow> pyval \<Rightarrow> pyval \<Rightarrow> pyval
     \<Rightarrow> outcome" where
  "handle_error cfg stats stderr_failure sid now name inp msg =
     (case handle_error_try cfg stats sid now name inp msg of
        (Inr r, stats1) \<Rightarrow> (Inr r, stats1)
      | (Inl e, stats1) \<Rightarrow> (handle_error_except stderr_failure inp, stats1))"

section \<open>Tool interceptor (morph_tool_interceptor.py, class MorphToolInterceptor)\<close>

definition TOOL_MAPPING :: "(string \<times> string) list" where
  "TOOL_MAPPING =
     [(''Read'', ''mcp__morph__read_file''),
      (''Write'', ''mcp__morph__write_file''),
      (''Edit'', ''mcp__morph__edit_file''),
      (''LS'', ''mcp__morph__list_directory''),
      (''Glob'', ''mcp__morph__search_files''),
      (''MultiEdit'', ''mcp__morph__edit_file'')]"

text \<open>\<open>AUTO_ACTIVATION_THRESHOLDS\<close>, the two entries that are read.\<close>

definition threshold_filesystem_operations :: int where
  "threshold_filesystem_operations = 5"

definition threshold_batch_edits :: int where
  "threshold_batch_edits = 3"

text \<open>\<open>self.session_stats\<close>; \<open>start_time\<close> holds a \<open>datetime\<close> object.\<close>

record session_stats =
  total_operations :: int
  morph_operations :: int
  native_operations :: int
  fallback_operations :: int
  start_time :: int

text \<open>\<open>MorphToolInterceptor.__init__\<close>, run at time \<open>now\<close>.\<close>

definition new_session_stats :: "int \<Rightarrow> session_stats" where
  "new_session_stats now =
     \<lparr>total_operations = 0, morph_operations = 0, native_operations = 0,
      fallback_operations = 0, start_time = now\<rparr>"

text \<open>\<open>tool_name in TOOL_MAPPING\<close>: a dict key test, TypeError on an unhashable name.\<close>

definition in_TOOL_MAPPING :: "pyval \<Rightarrow> py_exception + bool" where
  "in_TOOL_MAPPING name = and_then (const_dict_get TOOL_MAPPING name) (\<lambda>found. Inr (found \<noteq> None))"

text \<open>\<open>v.get(k, default)\<close>: only a dict has the method.\<close>

definition py_get_method :: "pyval \<Rightarrow> string \<Rightarrow> pyval \<Rightarrow> py_exception + pyval" where
  "py_get_method v k dflt =
     (case v of
        PDict kvs \<Rightarrow> Inr (case map_of kvs k of None \<Rightarrow> dflt | Some x \<Rightarrow> x)
      | _ \<Rightarrow> Inl AttributeError)"

text \<open>\<open>MorphToolInterceptor.is_batch_operation\<close>\<close>

definition is_batch_operation :: "pyval \<Rightarrow> py_exception + bool" where
  "is_batch_operation inp =
     and_then (py_in ''edits'' inp) (\<lambda>has_edits.
       if has_edits then
         and_then (py_get_method inp ''edits'' (PList [])) (\<lambda>edits.
         and_then (py_len edits) (\<lambda>n. Inr (n \<ge> threshold_batch_edits)))
       else Inr False)"

text \<open>\<open>MorphToolInterceptor.is_large_directory_operation\<close>\<close>

definition is_large_directory_operation :: "pyval \<Rightarrow> bool" where
  "is_large_directory_operation inp = True"

text \<open>
  The file system as \<open>os.path.exists\<close> and \<open>os.path.getsize\<close> see it: for a path value,
  the exception the two calls raise, or \<open>None\<close> when nothing exists there, or the size in
  bytes.
\<close>

type_synonym filesystem = "pyval \<Rightarrow> py_exception + int option"

text \<open>The \<open>try\<close> block of \<open>is_performance_critical_operation\<close> under its
  \<open>except (OSError, KeyError): pass\<close>; the result says whether the block returned True.\<close>

definition large_file :: "filesystem \<Rightarrow> pyval \<Rightarrow> py_exception + bool" where
  "large_file fs inp =
     (case and_then (py_subscript inp ''file_path'') (\<lambda>file_path.
             and_then (fs file_path) (\<lambda>found.
               case found of
                 None \<Rightarrow> Inr False
               | Some file_size \<Rightarrow> Inr (file_size > 1024 * 1024))) of
        Inl OSError \<Rightarrow> Inr False
      | Inl KeyError \<Rightarrow> Inr False
      | Inl e \<Rightarrow> Inl e
      | Inr b \<Rightarrow> Inr b)"

text \<open>\<open>MorphToolInterceptor.is_performance_critical_operation\<close>\<close>

definition is_performance_critical_operation ::
  "filesystem \<Rightarrow> pyval \<Rightarrow> pyval \<Rightarrow> py_exception + bool" where
  "is_performance_critical_operation fs name inp =
     and_then (if name \<in> set [PStr ''Read'', PStr ''Write'', PStr ''Edit'']
               then and_then (py_in ''file_path'' inp) (\<lambda>has_path.
                      if has_path then large_file fs inp else Inr False)
               else Inr False) (\<lambda>large.
       if large then Inr True
       else if name = PStr ''MultiEdit''
       then and_then (py_get_method inp ''edits'' (PList [])) (\<lambda>edits.
            and_then (py_len edits) (\<lambda>n. Inr (n > 1)))
       else Inr False)"

text \<open>\<open>MorphToolInterceptor.should_auto_activate\<close>\<close>

definition should_auto_activate ::
  "filesystem \<Rightarrow> session_stats \<Rightarrow> pyval \<Rightarrow> pyval \<Rightarrow> string list \<Rightarrow> py_exception + bool" where
  "should_auto_activate fs st name inp flags =
     and_then (in_TOOL_MAPPING name) (\<lambda>mapped.
       if \<not> mapped then Inr False
       else if total_operations st \<ge> threshold_filesystem_operations then Inr True
       else
         and_then (if name = PStr ''MultiEdit'' then is_batch_operation inp else Inr False) (\<lambda>batch.
           if batch then Inr True
           else if name = PStr ''LS'' \<and> is_large_directory_operation inp then Inr True
           else
             and_then (if ''--morph-fast'' \<in> set flags
                       then is_performance_critical_operation fs name inp
                       else Inr False) (\<lambda>critical.
               if critical then Inr True else Inr False)))"

text \<open>\<open>MorphToolInterceptor.should_intercept\<close>\<close>

definition should_intercept ::
  "filesystem \<Rightarrow> session_stats \<Rightarrow> pyval \<Rightarrow> pyval \<Rightarrow> string list \<Rightarrow> py_exception + bool" where
  "should_intercept fs st name inp flags =
     (if ''--no-morph'' \<in> set flags then Inr False
      else if ''--morph-only'' \<in> set flags then in_TOOL_MAPPING name
      else if ''--morph'' \<in> set flags \<or> ''--morphllm'' \<in> set flags then in_TOOL_MAPPING name
      else
        and_then (should_auto_activate fs st name inp flags) (\<lambda>auto_activate.
          if auto_activate then Inr True else Inr False))"

text \<open>The process environment: \<open>os.getenv\<close> and \<open>sys.argv\<close>. A variable counts as set when
  its value is a non-empty string.\<close>

type_synonym environ = "string \<Rightarrow> string option"

definition env_set :: "environ \<Rightarrow> string \<Rightarrow> bool" where
  "env_set getenv var = (case getenv var of None \<Rightarrow> False | Some v \<Rightarrow> v \<noteq> [])"

text \<open>\<open>MorphToolInterceptor.validate_morph_server\<close>\<close>

definition validate_morph_server :: "environ \<Rightarrow> bool" where
  "validate_morph_server getenv = list_all (env_set getenv) [''MORPH_API_KEY'', ''MORPH_SERVER_URL'']"

text \<open>\<open>MorphToolInterceptor.parse_flags\<close>\<close>

definition parse_flags :: "environ \<Rightarrow> string list \<Rightarrow> string list" where
  "parse_flags getenv argv =
     (if env_set getenv ''MORPH_ENABLED'' then [''--morph''] else [])
     @ (if env_set getenv ''MORPH_ONLY'' then [''--morph-only''] else [])
     @ (if env_set getenv ''MORPH_FAST'' then [''--morph-fast''] else [])
     @ (if env_set getenv ''NO_MORPH'' then [''--no-morph''] else [])
     @ filter (\<lambda>arg. arg \<in> set [''--morph'', ''--morphllm'', ''--morph-only'', ''--morph-fast'', ''--no-morph''])
         (drop 1 argv)"

text \<open>\<open>MorphToolInterceptor.map_multiedit_parameters\<close>, \<open>map_tool_parameters\<close> and
  \<open>create_morph_tool_call\<close> (the routed tool and its input).\<close>

definition map_multiedit_parameters :: "pyval \<Rightarrow> py_exception + pyval" where
  "map_multiedit_parameters inp =
     and_then (py_get_method inp ''file_path'' (PStr [])) (\<lambda>file_path.
     and_then (py_get_method inp ''edits'' (PList [])) (\<lambda>edits.
       Inr (PDict [(''file_path'', file_path), (''edits'', edits),
                   (''batch_mode'', PBool True), (''atomic_operation'', PBool True)])))"

definition map_tool_parameters :: "pyval \<Rightarrow> pyval \<Rightarrow> py_exception + pyval" where
  "map_tool_parameters name inp =
     (if name \<in> set [PStr ''Read'', PStr ''Write'', PStr ''Edit'', PStr ''LS'', PStr ''Glob''] then Inr inp
      else if name = PStr ''MultiEdit'' then map_multiedit_parameters inp
      else Inr inp)"

definition create_morph_tool_call :: "pyval \<Rightarrow> pyval \<Rightarrow> py_exception + pyval \<times> pyval" where
  "create_morph_tool_call name inp =
     and_then (const_dict_get TOOL_MAPPING name) (\<lambda>found.
     and_then (map_tool_parameters name inp) (\<lambda>mapped_input.
       Inr (case found of None \<Rightarrow> name | Some morph_tool_name \<Rightarrow> PStr morph_tool_name, mapped_input)))"

text \<open>
  \<open>json.dumps\<close> raises TypeError on an object it cannot encode; a \<open>datetime\<close> is one. The
  text written is represented by the value it encodes.
\<close>

fun json_serializable :: "pyval \<Rightarrow> bool"
  and json_serializable_list :: "pyval list \<Rightarrow> bool"
  and json_serializable_items :: "(string \<times> pyval) list \<Rightarrow> bool" where
  "json_serializable (PList xs) = json_serializable_list xs"
| "json_serializable (PDict kvs) = json_serializable_items kvs"
| "json_serializable (PDatetime t) = False"
| "json_serializable PNone = True"
| "json_serializable (PBool b) = True"
| "json_serializable (PInt i) = True"
| "json_serializable (PStr str) = True"
| "json_serializable_list [] = True"
| "json_serializable_list (x # xs) = (json_serializable x \<and> json_serializable_list xs)"
| "json_serializable_items [] = True"
| "json_serializable_items (kv # kvs) = (json_serializable (snd kv) \<and> json_serializable_items kvs)"

definition json_dumps :: "pyval \<Rightarrow> py_exception + pyval" where
  "json_dumps v = (if json_serializable v then Inr v else Inl TypeError)"

text \<open>
  \<open>MorphToolInterceptor.log_interception\<close>, at time \<open>now\<close>: \<open>log_ok\<close> says whether the log
  directory can be made and the log file opened for appending (OSError otherwise); the
  result is the log file with the new line. The \<open>timestamp\<close> entry is the ISO string of now.
\<close>

definition session_stats_dict :: "session_stats \<Rightarrow> pyval" where
  "session_stats_dict st =
     PDict [(''total_operations'', PInt (total_operations st)),
            (''morph_operations'', PInt (morph_operations st)),
            (''native_operations'', PInt (native_operations st)),
            (''fallback_operations'', PInt (fallback_operations st)),
            (''start_time'', PDatetime (start_time st))]"

definition log_interception ::
  "bool \<Rightarrow> int \<Rightarrow> session_stats \<Rightarrow> pyval list \<Rightarrow> pyval \<Rightarrow> string \<Rightarrow> string \<Rightarrow> py_exception + pyval list" where
  "log_interception log_ok now st log_file name act reason =
     (let log_entry = PDict [(''timestamp'', PInt now), (''tool_name'', name),
                             (''action'', PStr act), (''reason'', PStr reason),
                             (''session_stats'', session_stats_dict st)]
      in if \<not> log_ok then Inl OSError
         else and_then (json_dumps log_entry) (\<lambda>line. Inr (log_file @ [line])))"

text \<open>
  The decisions of the interceptor: \<open>{"action": "allow"}\<close>; the fallback response of
  \<open>create_fallback_response\<close> (action allow, \<open>fallback_mode\<close> set); the block response with
  the routed call; and the error response of \<open>main\<close> (action allow, \<open>fallback_mode\<close> set, the
  error).
\<close>

datatype interception =
    AllowNative
  | AllowFallback
  | Block (exit_code: int) (routed_tool: pyval) (routed_input: pyval)
  | AllowError py_exception

text \<open>\<open>MorphToolInterceptor.create_fallback_response\<close>\<close>

definition create_fallback_response :: "pyval \<Rightarrow> pyval \<Rightarrow> interception" where
  "create_fallback_response name inp = AllowFallback"

text \<open>
  \<open>MorphToolInterceptor.process_tool_call\<close>: the decision or the exception raised, the
  session statistics and the log file when the method exits.
\<close>

definition process_tool_call ::
  "environ \<Rightarrow> string list \<Rightarrow> filesystem \<Rightarrow> bool \<Rightarrow> int \<Rightarrow> session_stats \<Rightarrow> pyval list \<Rightarrow> pyval \<Rightarrow> pyval
     \<Rightarrow> (py_exception + interception) \<times> session_stats \<times> pyval list" where
  "process_tool_call getenv argv fs log_ok now st log_file name inp =
     (let st1 = st\<lparr>total_operations := total_operations st + 1\<rparr>;
          flags = parse_flags getenv argv
      in case should_intercept fs st1 name inp flags of
           Inl e \<Rightarrow> (Inl e, st1, log_file)
         | Inr True \<Rightarrow>
             if \<not> validate_morph_server getenv then
               (case log_interception log_ok now st1 log_file name ''fallback''
                       ''MorphLLM server unavailable'' of
                  Inl e \<Rightarrow> (Inl e, st1, log_file)
                | Inr log1 \<Rightarrow>
                    (Inr (create_fallback_response name inp),
                     st1\<lparr>fallback_operations := fallback_operations st1 + 1\<rparr>, log1))
             else
               (case create_morph_tool_call name inp of
                  Inl e \<Rightarrow> (Inl e, st1, log_file)
                | Inr (morph_tool, morph_input) \<Rightarrow>
                    (case log_interception log_ok now st1 log_file name ''intercept'' ''Routing'' of
                       Inl e \<Rightarrow> (Inl e, st1, log_file)
                     | Inr log1 \<Rightarrow>
                         (Inr (Block 2 morph_tool morph_input),
                          st1\<lparr>morph_operations := morph_operations st1 + 1\<rparr>, log1)))
         | Inr False \<Rightarrow>
             (let st2 = st1\<lparr>native_operations := native_operations st1 + 1\<rparr>
              in case log_interception log_ok now st2 log_file name ''allow'' ''Using native tool'' of
                   Inl e \<Rightarrow> (Inl e, st2, log_file)
                 | Inr log1 \<Rightarrow> (Inr AllowNative, st2, log1)))"

text \<open>
  \<open>main\<close> of the interceptor, from the decoded call data on: a new interceptor, the call
  of \<open>process_tool_call\<close>, and the \<open>except Exception\<close> clause that answers with the error
  response and exit status 0. The result is the decision printed and the exit status.
\<close>

definition interceptor_main ::
  "environ \<Rightarrow> string list \<Rightarrow> filesystem \<Rightarrow> bool \<Rightarrow> int \<Rightarrow> pyval list \<Rightarrow> pyval \<Rightarrow> interception \<times> int" where
  "interceptor_main getenv argv fs log_ok now log_file tool_call_data =
     (case and_then (py_get_method tool_call_data ''tool_name'' (PStr [])) (\<lambda>name.
           and_then (py_get_method tool_call_data ''tool_input'' (PDict [])) (\<lambda>inp.
             fst (process_tool_call getenv argv fs log_ok now (new_session_stats now) log_file name inp))) of
        Inl e \<Rightarrow> (AllowError e, 0)
      | Inr (Block code t i) \<Rightarrow> (Block code t i, code)
      | Inr r \<Rightarrow> (r, 0))"

section \<open>Bridge routing (pre_tool_use.py, class PreToolUseHook)\<close>

text \<open>
  \<open>route_to_bridge\<close> and the functions it calls, with the module-level cache of
  \<open>performance_optimizer\<close> holding decoded values. The tool name is whatever value the
  decoded call data holds under \<open>tool\<close>. The timings recorded in the monitor are left out:
  \<open>record_timing\<close> does not raise and no result depends on it. One call is taken to
  happen at one time \<open>now\<close>.
\<close>

text \<open>\<open>should_use_cache\<close>, with \<open>OPTIMIZATION_CONFIG["enable_caching"]\<close> being True.\<close>

definition should_use_cache :: "pyval \<Rightarrow> bool" where
  "should_use_cache operation =
     (True \<and> operation \<notin> set [PStr ''Write'', PStr ''Edit'', PStr ''MultiEdit'', PStr ''TodoWrite''])"

text \<open>\<open>generate_cache_key\<close>: \<open>json.dumps\<close> raises TypeError on data it cannot encode; the
  MD5 digest of the sorted JSON text is a parameter.\<close>

definition generate_cache_key :: "(pyval \<Rightarrow> string) \<Rightarrow> string \<Rightarrow> pyval \<Rightarrow> py_exception + string" where
  "generate_cache_key digest prefix data =
     and_then (json_dumps data) (\<lambda>sorted_data. Inr (prefix @ '':'' @ digest sorted_data))"

text \<open>Truth value of an object, as \<open>if x:\<close> tests it.\<close>

definition py_truthy :: "pyval \<Rightarrow> bool" where
  "py_truthy v =
     (case v of
        PNone \<Rightarrow> False
      | PBool b \<Rightarrow> b
      | PInt i \<Rightarrow> i \<noteq> 0
      | PStr str \<Rightarrow> str \<noteq> []
      | PList xs \<Rightarrow> xs \<noteq> []
      | PDict kvs \<Rightarrow> kvs \<noteq> []
      | PDatetime t \<Rightarrow> True)"

text \<open>What \<open>cache.get\<close> hands to Python: the stored object, or None on a miss.\<close>

definition returned_object :: "pyval option \<Rightarrow> pyval" where
  "returned_object r = (case r of None \<Rightarrow> PNone | Some v \<Rightarrow> v)"

text \<open>A value inside an f-string: a string stands for itself, the text of any other
  value (\<open>str(v)\<close>) is a parameter.\<close>

definition format_value :: "(pyval \<Rightarrow> string) \<Rightarrow> pyval \<Rightarrow> string" where
  "format_value render v = (case v of PStr str \<Rightarrow> str | _ \<Rightarrow> render v)"

text \<open>The \<open>routing_map\<close> of \<open>optimize_mcp_routing\<close>.\<close>

definition routing_map :: "(string \<times> pyval) list" where
  "routing_map =
     [(''Read'', PNone), (''Analyze'', PStr ''sequential''), (''Build'', PStr ''magic''),
      (''Test'', PStr ''playwright'')]"

text \<open>\<open>optimize_mcp_routing\<close>: the inner \<open>_route\<close> (\<open>routing_map.get(tool_name)\<close>, TypeError
  on an unhashable name) under \<open>cached_operation\<close>.\<close>

definition optimize_mcp_routing ::
  "(pyval \<Rightarrow> string) \<Rightarrow> real \<Rightarrow> pyval LRUCache \<Rightarrow> pyval \<Rightarrow> pyval
     \<Rightarrow> (py_exception + pyval) \<times> pyval LRUCache" where
  "optimize_mcp_routing digest now c name args =
     (case generate_cache_key digest ''routing'' (PDict [(''tool'', name), (''args'', args)]) of
        Inl e \<Rightarrow> (Inl e, c)
      | Inr cache_key \<Rightarrow>
          (let (got, c1) = LRUCache_get now cache_key c;
               cached_result = returned_object got
           in if cached_result \<noteq> PNone then (Inr cached_result, c1)
              else
                (case const_dict_get routing_map name of
                   Inl e \<Rightarrow> (Inl e, c1)
                 | Inr found \<Rightarrow>
                     (let result = (case found of None \<Rightarrow> PNone | Some r \<Rightarrow> r)
                      in case LRUCache_set now cache_key result c1 of
                           Inl e \<Rightarrow> (Inl e, c1)
                         | Inr c2 \<Rightarrow> (Inr result, c2)))))"

definition tool_routes :: "(string \<times> string) list" where
  "tool_routes =
     [(''Read'', ''superclaude-code''), (''Write'', ''superclaude-code''),
      (''Edit'', ''superclaude-code''), (''MultiEdit'', ''superclaude-code''),
      (''Grep'', ''superclaude-code''), (''Glob'', ''superclaude-code''),
      (''Bash'', ''superclaude-orchestrator''), (''Task'', ''superclaude-tasks''),
      (''TodoWrite'', ''superclaude-tasks''), (''WebSearch'', ''superclaude-intelligence''),
      (''WebFetch'', ''superclaude-intelligence'')]"

text \<open>The text before the first \<open>__\<close>: for a name that starts with \<open>mcp__\<close>, applied to the
  rest of the name it gives \<open>tool_name.split('__')[1]\<close>.\<close>

fun until_separator :: "string \<Rightarrow> string" where
  "until_separator (a # b # cs) =
     (if a = CHR ''_'' \<and> b = CHR ''_'' then [] else a # until_separator (b # cs))"
| "until_separator cs = cs"

definition mcp_server_route :: "string \<Rightarrow> string option" where
  "mcp_server_route name =
     (if starts_with ''mcp__'' name then
        (let server = until_separator (drop 5 name)
         in if server = ''sequential-thinking'' then Some ''sequential''
            else if server = ''context7'' then Some ''context7''
            else if server = ''magic'' then Some ''magic''
            else if server = ''playwright'' then Some ''playwright''
            else None)
      else None)"

text \<open>The body of \<open>PreToolUseHook.select_fallback_route\<close> (\<open>tool_name.startswith\<close> raises
  AttributeError on a name that is not a string), then the method under
  \<open>cached_operation\<close>.\<close>

definition select_fallback_route_body ::
  "(pyval \<Rightarrow> string) \<Rightarrow> real \<Rightarrow> pyval LRUCache \<Rightarrow> pyval \<Rightarrow> (py_exception + pyval) \<times> pyval LRUCache" where
  "select_fallback_route_body digest now c name =
     (case optimize_mcp_routing digest now c name (PDict []) of
        (Inl e, c1) \<Rightarrow> (Inl e, c1)
      | (Inr optimized_route, c1) \<Rightarrow>
          if py_truthy optimized_route then (Inr optimized_route, c1)
          else (case name of
                  PStr text \<Rightarrow>
                    (case mcp_server_route text of
                       Some route \<Rightarrow> (Inr (PStr route), c1)
                     | None \<Rightarrow>
                         (Inr (PStr (case map_of tool_routes text of
                                       None \<Rightarrow> ''superclaude-orchestrator''
                                     | Some route \<Rightarrow> route)), c1))
                | _ \<Rightarrow> (Inl AttributeError, c1)))"

definition select_fallback_route ::
  "(pyval \<Rightarrow> string) \<Rightarrow> (pyval \<Rightarrow> string) \<Rightarrow> real \<Rightarrow> pyval LRUCache \<Rightarrow> pyval
     \<Rightarrow> (py_exception + pyval) \<times> pyval LRUCache" where
  "select_fallback_route digest render now c name =
     (let cache_key = ''fallback_route:'' @ format_value render name;
          (got, c1) = LRUCache_get now cache_key c;
          cached_result = returned_object got
      in if cached_result \<noteq> PNone then (Inr cached_result, c1)
         else
           (case select_fallback_route_body digest now c1 name of
              (Inl e, c2) \<Rightarrow> (Inl e, c2)
            | (Inr result, c2) \<Rightarrow>
                (case LRUCache_set now cache_key result c2 of
                   Inl e \<Rightarrow> (Inl e, c2)
                 | Inr c3 \<Rightarrow> (Inr result, c3))))"

text \<open>The entries of the context dict that \<open>route_to_bridge\<close> reads.\<close>

record bridge_context =
  toolName :: pyval
  toolArgs :: pyval
  persona :: pyval

text \<open>
  The result of \<open>route_to_bridge\<close>: the decoded answer of the bridge service (fresh or
  cached), or the fallback response of \<open>create_fallback_response\<close> with its \<open>allow\<close>,
  \<open>modifiedArgs\<close> and, from the metadata, \<open>fallback\<close> and \<open>mcpRoute\<close>.
\<close>

datatype routing_result =
    FromBridge pyval
  | FallbackDecision (allow: bool) (modifiedArgs: pyval) (fallback: bool) (mcpRoute: pyval)

text \<open>\<open>PreToolUseHook.create_fallback_response\<close>\<close>

definition bridge_fallback_response ::
  "(pyval \<Rightarrow> string) \<Rightarrow> (pyval \<Rightarrow> string) \<Rightarrow> real \<Rightarrow> pyval LRUCache \<Rightarrow> bridge_context
     \<Rightarrow> (py_exception + routing_result) \<times> pyval LRUCache" where
  "bridge_fallback_response digest render now c ctx =
     (case select_fallback_route digest render now c (toolName ctx) of
        (Inl e, c1) \<Rightarrow> (Inl e, c1)
      | (Inr route, c1) \<Rightarrow> (Inr (FallbackDecision True (toolArgs ctx) True route), c1))"

text \<open>
  What \<open>requests.post\<close> does when it is called: it raises an exception
  (\<open>requests.Timeout\<close> is one), or it returns a response with a status code whose \<open>json()\<close>
  gives a value or raises a ValueError (\<open>None\<close>).
\<close>

datatype post_outcome = PostRaises py_exception | PostResponse int "pyval option"

text \<open>The \<open>try\<close> block of \<open>route_to_bridge\<close>, entered with the cache key of the call when
  the cache is used for it.\<close>

definition route_to_bridge_try ::
  "(pyval \<Rightarrow> string) \<Rightarrow> (pyval \<Rightarrow> string) \<Rightarrow> real \<Rightarrow> post_outcome \<Rightarrow> pyval LRUCache
     \<Rightarrow> bridge_context \<Rightarrow> string option \<Rightarrow> (py_exception + routing_result) \<times> pyval LRUCache" where
  "route_to_bridge_try digest render now post c ctx cache_key =
     (case post of
        PostRaises e \<Rightarrow> (Inl e, c)
      | PostResponse status_code body \<Rightarrow>
          if status_code = 200 then
            (case body of
               None \<Rightarrow> (Inl ValueError, c)
             | Some result \<Rightarrow>
                 (case cache_key of
                    Some k \<Rightarrow>
                      (case LRUCache_set now k result c of
                         Inl e \<Rightarrow> (Inl e, c)
                       | Inr c1 \<Rightarrow> (Inr (FromBridge result), c1))
                  | None \<Rightarrow> (Inr (FromBridge result), c)))
          else bridge_fallback_response digest render now c ctx)"

text \<open>\<open>PreToolUseHook.route_to_bridge\<close>: the cache lookup when the cache is used for the
  tool, then the \<open>try\<close> block under \<open>except requests.Timeout\<close> and \<open>except Exception\<close>.\<close>

definition route_to_bridge ::
  "(pyval \<Rightarrow> string) \<Rightarrow> (pyval \<Rightarrow> string) \<Rightarrow> real \<Rightarrow> post_outcome \<Rightarrow> pyval LRUCache
     \<Rightarrow> bridge_context \<Rightarrow> (py_exception + routing_result) \<times> pyval LRUCache" where
  "route_to_bridge digest render now post c ctx =
     (case (if should_use_cache (toolName ctx)
            then and_then (generate_cache_key digest ''bridge_route''
                             (PDict [(''tool'', toolName ctx), (''args'', toolArgs ctx),
                                     (''persona'', persona ctx)])) (\<lambda>k. Inr (Some k))
            else Inr None) of
        Inl e \<Rightarrow> (Inl e, c)
      | Inr cache_key \<Rightarrow>
          (let (got, c1) = (case cache_key of Some k \<Rightarrow> LRUCache_get now k c | None \<Rightarrow> (None, c));
               cached_result = returned_object got
           in if cache_key \<noteq> None \<and> py_truthy cached_result then (Inr (FromBridge cached_result), c1)
              else
                (case route_to_bridge_try digest render now post c1 ctx cache_key of
                   (Inr r, c2) \<Rightarrow> (Inr r, c2)
                 | (Inl e, c2) \<Rightarrow>
                     if e = RequestsTimeout then bridge_fallback_response digest render now c2 ctx
                     else bridge_fallback_response digest render now c2 ctx)))"

section \<open>Theorems\<close>

subsection \<open>Error classifier\<close>

text \<open>\<open>str_contains\<close> is the substring test.\<close>

lemma starts_with_iff: "starts_with kw s \<longleftrightarrow> (\<exists>q. s = kw @ q)"
  by (induction kw s rule: starts_with.induct) auto

lemma str_contains_iff: "str_contains kw s \<longleftrightarrow> (\<exists>p q. s = p @ kw @ q)"
proof (induction s)
  case Nil
  then show ?case by auto
next
  case (Cons c cs)
  show ?case
  proof
    assume "str_contains kw (c # cs)"
    then consider "starts_with kw (c # cs)" | "str_contains kw cs" by auto
    then show "\<exists>p q. c # cs = p @ kw @ q"
    proof cases
      case 1
      then obtain q where "c # cs = kw @ q" using starts_with_iff by blast
      then have "c # cs = [] @ kw @ q" by simp
      then show ?thesis by blast
    next
      case 2
      then obtain p q where "cs = p @ kw @ q" using Cons.IH by blast
      then have "c # cs = (c # p) @ kw @ q" by simp
      then show ?thesis by blast
    qed
  next
    assume "\<exists>p q. c # cs = p @ kw @ q"
    then obtain p q where pq: "c # cs = p @ kw @ q" by blast
    show "str_contains kw (c # cs)"
    proof (cases p)
      case Nil
      then have "starts_with kw (c # cs)" using pq starts_with_iff by auto
      then show ?thesis by simp
    next
      case p: (Cons a p')
      then have "cs = p' @ kw @ q" using pq by simp
      then have "str_contains kw cs" using Cons.IH by blast
      then show ?thesis by simp
    qed
  qed
qed

lemma lower_connection_timed_out: "lower ''Connection timed out'' = ''connection timed out''"
  by code_simp

lemma classify_error_first_match:
  "classify_error m = first_matching_group keyword_groups (lower m)"
  by (simp add: classify_error_def keyword_groups_def Let_def)

text \<open>
  C1, as the specification states it, fails: for the message "Connection timed out" the
  classifier does not return Timeout.
\<close>

theorem C1_connection_timed_out_not_timeout:
  "classify_error ''Connection timed out'' \<noteq> TIMEOUT"
  by (simp add: classify_error_def Let_def lower_connection_timed_out any_keyword_def)

text \<open>
  C1, amended: classification is the first matching group of the documented group order
  (Unknown when no group matches); under that order the connectivity group precedes the
  timeout group, so "Connection timed out" is classified ServerUnavailable, while a
  message with a timeout keyword only ("Operation timed out") is classified Timeout and
  the empty message Unknown.
\<close>

theorem C1_classify_by_group_order:
  "classify_error m = first_matching_group keyword_groups (lower m)
   \<and> classify_error ''Connection timed out'' = SERVER_UNAVAILABLE
   \<and> classify_error ''Operation timed out'' = TIMEOUT
   \<and> classify_error '''' = UNKNOWN_ERROR"
proof -
  have a: "classify_error ''Connection timed out'' = SERVER_UNAVAILABLE"
    by (simp add: classify_error_def Let_def lower_connection_timed_out any_keyword_def)
  have l: "lower ''Operation timed out'' = ''operation timed out''"
    by code_simp
  have b: "classify_error ''Operation timed out'' = TIMEOUT"
    by (simp add: classify_error_def Let_def l any_keyword_def)
  have c: "classify_error '''' = UNKNOWN_ERROR"
    by (simp add: classify_error_def Let_def lower_def any_keyword_def)
  show ?thesis
    using classify_error_first_match a b c by simp
qed

subsection \<open>Bounded TTL cache\<close>

lemma length_od_delete: "length (od_delete key d) \<le> length d"
  by (simp add: od_delete_def)

lemma key_in_iff: "key_in key d \<longleftrightarrow> key \<in> fst ` set d"
  by (simp add: key_in_def map_of_eq_None_iff)

lemma length_od_delete_key_in: "key_in key d \<Longrightarrow> length (od_delete key d) < length d"
  unfolding od_delete_def key_in_iff
  by (auto intro: length_filter_less)

lemma length_move_to_end: "length (move_to_end key d) \<le> length d"
proof (cases "map_of d key")
  case None
  then show ?thesis by (simp add: move_to_end_def)
next
  case (Some e)
  then have "key_in key d" by (simp add: key_in_def)
  from length_od_delete_key_in[OF this] Some show ?thesis
    by (simp add: move_to_end_def)
qed

lemma key_in_move_to_end: "key_in key d \<Longrightarrow> key_in key (move_to_end key d)"
  by (auto simp: key_in_iff move_to_end_def key_in_def split: option.splits)

lemma length_od_assign:
  "length (od_assign key e d) = (if key_in key d then length d else Suc (length d))"
  by (simp add: od_assign_def)

lemma od_assign_nonempty: "od_assign key e d \<noteq> []"
  by (auto simp: od_assign_def key_in_def)

lemma LRUCache_set_total:
  "\<exists>c'. LRUCache_set now key val c = Inr c' \<and> max_size c' = max_size c
      \<and> (int (length (cache c)) \<le> max_size c \<longrightarrow> int (length (cache c')) \<le> max_size c')"
proof -
  define d1 where "d1 = (if key_in key (cache c) then move_to_end key (cache c) else cache c)"
  define d2 where "d2 = od_assign key (val, now) d1"
  have l2: "length d2 \<le> Suc (length (cache c))"
  proof (cases "key_in key (cache c)")
    case True
    then have "key_in key d1" by (simp add: d1_def key_in_move_to_end)
    then have "length d2 = length d1" by (simp add: d2_def length_od_assign)
    also have "\<dots> \<le> length (cache c)" using True by (simp add: d1_def length_move_to_end)
    finally show ?thesis by simp
  next
    case False
    then show ?thesis by (simp add: d1_def d2_def length_od_assign)
  qed
  have ne: "d2 \<noteq> []" by (simp add: d2_def od_assign_nonempty)
  then obtain x rest where d2: "d2 = x # rest" by (cases d2) auto
  show ?thesis
  proof (cases "int (length d2) > max_size c")
    case True
    then have "LRUCache_set now key val c = Inr (c\<lparr>cache := rest\<rparr>)"
      using d2 by (simp add: LRUCache_set_def Let_def d1_def[symmetric] d2_def[symmetric] popitem_first_def)
    moreover have "length rest \<le> length (cache c)" using l2 d2 by simp
    ultimately show ?thesis by simp
  next
    case False
    then have "LRUCache_set now key val c = Inr (c\<lparr>cache := d2\<rparr>)"
      by (simp add: LRUCache_set_def Let_def d1_def[symmetric] d2_def[symmetric])
    then show ?thesis using False by simp
  qed
qed

lemma LRUCache_get_size:
  "max_size (snd (LRUCache_get now key c)) = max_size c
   \<and> length (cache (snd (LRUCache_get now key c))) \<le> length (cache c)"
  by (auto simp: LRUCache_get_def length_move_to_end length_od_delete split: option.splits)

lemma apply_op_bounded:
  "\<exists>c'. apply_op c x = Inr c' \<and> max_size c' = max_size c
      \<and> (int (length (cache c)) \<le> max_size c \<longrightarrow> int (length (cache c')) \<le> max_size c')"
proof (cases x)
  case (OpGet key now)
  then show ?thesis using LRUCache_get_size[of now key c] by auto
next
  case (OpSet key val now)
  then show ?thesis using LRUCache_set_total[of now key val c] by simp
qed

lemma run_ops_bounded:
  "int (length (cache c)) \<le> max_size c \<Longrightarrow>
   \<exists>c'. run_ops c xs = Inr c' \<and> max_size c' = max_size c \<and> int (length (cache c')) \<le> max_size c'"
proof (induction xs arbitrary: c)
  case Nil
  then show ?case by simp
next
  case (Cons x xs)
  from apply_op_bounded[of c x] Cons.prems obtain c1 where
    c1: "apply_op c x = Inr c1" "max_size c1 = max_size c" "int (length (cache c1)) \<le> max_size c1"
    by auto
  from Cons.IH[OF c1(3)] c1 show ?case by auto
qed

lemma set_evicts_oldest:
  assumes "\<not> key_in key (cache c)" and "int (length (cache c)) + 1 > max_size c"
  shows "LRUCache_set now key val c = Inr (c\<lparr>cache := tl (cache c @ [(key, (val, now))])\<rparr>)"
  using assms by (simp add: LRUCache_set_def Let_def od_assign_def popitem_first_def split: list.splits)

lemma distinct_od_delete: "distinct (map fst d) \<Longrightarrow> distinct (map fst (od_delete key d))"
  by (simp add: od_delete_def distinct_map_filter)

lemma fst_set_od_delete: "fst ` set (od_delete key d) = fst ` set d - {key}"
  by (auto simp: od_delete_def)

lemma distinct_move_to_end: "distinct (map fst d) \<Longrightarrow> distinct (map fst (move_to_end key d))"
  by (auto simp: move_to_end_def distinct_od_delete fst_set_od_delete split: option.splits)

lemma map_fst_od_assign_in: "key_in key d \<Longrightarrow> map fst (od_assign key e d) = map fst d"
  by (auto simp: od_assign_def)

lemma distinct_od_assign: "distinct (map fst d) \<Longrightarrow> distinct (map fst (od_assign key e d))"
proof (cases "key_in key d")
  case True
  assume "distinct (map fst d)"
  then show ?thesis using True by (simp add: map_fst_od_assign_in)
next
  case False
  assume "distinct (map fst d)"
  then show ?thesis using False by (auto simp: od_assign_def key_in_iff)
qed

lemma LRUCache_set_distinct:
  "distinct (map fst (cache c)) \<Longrightarrow> LRUCache_set now key val c = Inr c' \<Longrightarrow> distinct (map fst (cache c'))"
  by (auto simp: LRUCache_set_def Let_def popitem_first_def distinct_od_assign distinct_move_to_end
      distinct_tl split: if_splits list.splits sum.splits dest!: arg_cong[where f="\<lambda>d. distinct (map fst d)"])


lemma set_inserts_at_end:
  "(let d1 = (if key_in key d then move_to_end key d else d)
    in od_assign key e d1) = od_delete key d @ [(key, e)]"
proof (cases "key_in key d")
  case True
  then obtain e0 where e0: "map_of d key = Some e0" by (auto simp: key_in_def)
  have k: "key_in key (od_delete key d @ [(key, e0)])"
    by (simp add: key_in_iff)
  have "map (\<lambda>p. if fst p = key then (key, e) else p) (od_delete key d) = od_delete key d"
    by (induction d) (auto simp: od_delete_def)
  then show ?thesis using True e0 k
    by (simp add: move_to_end_def od_assign_def)
next
  case False
  then have "od_delete key d = d"
    by (auto simp: od_delete_def key_in_iff filter_id_conv)
  then show ?thesis using False by (simp add: od_assign_def)
qed

lemma LRUCache_set_cache:
  "LRUCache_set now key val c =
     Inr (c\<lparr>cache := (let d2 = od_delete key (cache c) @ [(key, (val, now))]
                       in if int (length d2) > max_size c then tl d2 else d2)\<rparr>)"
  using set_inserts_at_end[of key "cache c" "(val, now)"]
  by (simp add: LRUCache_set_def Let_def popitem_first_def split: list.splits)

lemma recency_delete_append:
  assumes "in_recency_order lu d" and "\<forall>p \<in> set d. lu (fst p) < step"
  shows "in_recency_order (lu(key := step)) (od_delete key d @ [(key, e)])"
    and "\<forall>p \<in> set (od_delete key d @ [(key, e)]). (lu(key := step)) (fst p) < Suc step"
proof -
  have s: "sorted_wrt (\<lambda>p q. lu (fst p) < lu (fst q)) (od_delete key d)"
    using assms(1) by (simp add: in_recency_order_def od_delete_def sorted_wrt_filter)
  have "sorted_wrt (\<lambda>p q. (lu(key := step)) (fst p) < (lu(key := step)) (fst q)) (od_delete key d)"
    by (rule sorted_wrt_mono_rel[OF _ s]) (auto simp: od_delete_def)
  moreover have "\<forall>p \<in> set (od_delete key d). (lu(key := step)) (fst p) < step"
    using assms(2) by (auto simp: od_delete_def)
  ultimately show "in_recency_order (lu(key := step)) (od_delete key d @ [(key, e)])"
    by (auto simp: in_recency_order_def sorted_wrt_append)
  show "\<forall>p \<in> set (od_delete key d @ [(key, e)]). (lu(key := step)) (fst p) < Suc step"
    using assms(2) by (auto simp: od_delete_def less_Suc_eq)
qed

lemma recency_tl: "in_recency_order lu d \<Longrightarrow> in_recency_order lu (tl d)"
  by (cases d) (auto simp: in_recency_order_def)

lemma recency_invariant_set:
  assumes "recency_invariant c lu step" and "LRUCache_set now key val c = Inr c'"
  shows "recency_invariant c' (lu(key := step)) (Suc step)"
proof -
  let ?d2 = "od_delete key (cache c) @ [(key, (val, now))]"
  from assms(1) have a: "in_recency_order lu (cache c)" "\<forall>p \<in> set (cache c). lu (fst p) < step"
    by (simp_all add: recency_invariant_def list_all_iff)
  note r = recency_delete_append[OF a, of key "(val, now)"]
  from assms(2) have c': "cache c' = (if int (length ?d2) > max_size c then tl ?d2 else ?d2)"
    by (auto simp: LRUCache_set_cache Let_def)
  have sub: "set (cache c') \<subseteq> set ?d2" using c' by (auto dest: list.set_sel(2)[rotated])
  have b: "\<forall>p \<in> set (cache c'). (lu(key := step)) (fst p) < Suc step"
    using sub r(2) by blast
  have "in_recency_order (lu(key := step)) (cache c')"
    using c' r(1) recency_tl by (cases "int (length ?d2) > max_size c") auto
  then show ?thesis using b by (simp add: recency_invariant_def list_all_iff)
qed

lemma LRUCache_get_cache:
  "cache (snd (LRUCache_get now key c)) =
     (case map_of (cache c) key of
        None \<Rightarrow> cache c
      | Some e \<Rightarrow> if is_hit c key now then od_delete key (cache c) @ [(key, e)]
                  else od_delete key (cache c))"
  by (auto simp: LRUCache_get_def is_hit_def move_to_end_def split: option.splits)

lemma recency_invariant_get:
  assumes "recency_invariant c lu step"
  shows "recency_invariant (snd (LRUCache_get now key c)) (note_use lu step (used_key c (OpGet key now))) (Suc step)"
proof (cases "map_of (cache c) key")
  case None
  then have "\<not> is_hit c key now" by (simp add: is_hit_def)
  then show ?thesis using assms None
    by (auto simp: recency_invariant_def list_all_iff LRUCache_get_cache note_use_def less_Suc_eq)
next
  case (Some e)
  from assms have a: "in_recency_order lu (cache c)" "\<forall>p \<in> set (cache c). lu (fst p) < step"
    by (simp_all add: recency_invariant_def list_all_iff)
  show ?thesis
  proof (cases "is_hit c key now")
    case True
    from recency_delete_append[OF a, of key e] True Some show ?thesis
      by (simp add: recency_invariant_def list_all_iff LRUCache_get_cache note_use_def)
  next
    case False
    have "in_recency_order lu (od_delete key (cache c))"
      using a(1) by (simp add: in_recency_order_def od_delete_def sorted_wrt_filter)
    moreover have "\<forall>p \<in> set (od_delete key (cache c)). lu (fst p) < Suc step"
      using a(2) by (auto simp: od_delete_def less_Suc_eq)
    ultimately show ?thesis using False Some
      by (simp add: recency_invariant_def list_all_iff LRUCache_get_cache note_use_def)
  qed
qed

lemma recency_invariant_apply_op:
  assumes "recency_invariant c lu step" and "apply_op c x = Inr c'"
  shows "recency_invariant c' (note_use lu step (used_key c x)) (Suc step)"
proof (cases x)
  case (OpGet key now)
  then show ?thesis using assms recency_invariant_get[OF assms(1), of now key] by simp
next
  case (OpSet key val now)
  then show ?thesis using assms recency_invariant_set[OF assms(1), of now key val c'] by (simp add: note_use_def)
qed

lemma run_ops_logged_invariant:
  assumes "recency_invariant c lu step" and "run_ops c xs = Inr c'"
  shows "\<exists>lu' step'. run_ops_logged c lu step xs = Inr (c', lu') \<and> recency_invariant c' lu' step'"
  using assms
proof (induction xs arbitrary: c lu step)
  case Nil
  then show ?case by auto
next
  case (Cons x xs)
  from Cons.prems(2) obtain c1 where c1: "apply_op c x = Inr c1" "run_ops c1 xs = Inr c'"
    by (auto split: sum.splits)
  from recency_invariant_apply_op[OF Cons.prems(1) c1(1)]
  have "recency_invariant c1 (note_use lu step (used_key c x)) (Suc step)" .
  from Cons.IH[OF this c1(2)] c1(1) show ?case by simp
qed

lemma head_least_recently_used:
  assumes "in_recency_order lu d" and "d \<noteq> []"
  shows "least_recently_used lu d (hd d)"
proof -
  from assms(2) obtain h rest where d: "d = h # rest" by (cases d) auto
  with assms(1) have "\<forall>q \<in> set rest. lu (fst h) < lu (fst q)"
    by (simp add: in_recency_order_def)
  then show ?thesis using d
    by (auto simp: least_recently_used_def list_all_iff less_imp_le)
qed


lemma recency_invariant_init: "0 \<le> m \<Longrightarrow> recency_invariant (LRUCache_init m t) (\<lambda>k. 0) 1"
  by (simp add: recency_invariant_def list_all_iff LRUCache_init_def in_recency_order_def)

text \<open>
  C7: for a cache created with a capacity \<open>m \<ge> 0\<close>, every sequence of set and get calls
  runs without an exception, and after every call (every prefix of the sequence) the number
  of stored entries is at most \<open>m\<close> and the stored entries are in recency order: each was
  last used (by a set, or by a get that returned it) before all the entries behind it.
  When a \<open>set\<close> then inserts a new key and the size would exceed \<open>m\<close>, the entry evicted is
  the first one, which is the least recently used entry; all others are kept and the new
  entry becomes the most recent one (with capacity 0 the new entry itself is dropped).
\<close>

theorem C7_size_bounded_lru_evicted:
  "0 \<le> m \<Longrightarrow>
   (\<forall>n. \<exists>(c'::'v LRUCache) last_use.
        run_ops (LRUCache_init m t) (take n ops) = Inr c'
      \<and> run_ops_logged (LRUCache_init m t) (\<lambda>k. 0) 1 (take n ops) = Inr (c', last_use)
      \<and> int (length (cache c')) \<le> m
      \<and> in_recency_order last_use (cache c')
      \<and> (\<forall>key val now.
            \<not> key_in key (cache c') \<and> int (length (cache c')) + 1 > m \<longrightarrow>
              LRUCache_set now key val c' = Inr (c'\<lparr>cache := tl (cache c' @ [(key, (val, now))])\<rparr>)
              \<and> (cache c' \<noteq> [] \<longrightarrow>
                    least_recently_used last_use (cache c') (hd (cache c'))
                    \<and> tl (cache c' @ [(key, (val, now))]) = tl (cache c') @ [(key, (val, now))])))
   \<and> (\<forall>(c::'v LRUCache) key val now.
         \<not> key_in key (cache c) \<and> int (length (cache c)) + 1 > max_size c
         \<longrightarrow> LRUCache_set now key val c = Inr (c\<lparr>cache := tl (cache c @ [(key, (val, now))])\<rparr>))"
proof (intro conjI allI)
  fix n
  assume m: "0 \<le> m"
  let ?init = "LRUCache_init m t :: 'v LRUCache"
  have "int (length (cache ?init)) \<le> max_size ?init"
    using m by (simp add: LRUCache_init_def)
  from run_ops_bounded[OF this, of "take n ops"]
  obtain c' :: "'v LRUCache" where c': "run_ops ?init (take n ops) = Inr c'"
    "max_size c' = m" "int (length (cache c')) \<le> m"
    by (auto simp: LRUCache_init_def)
  from run_ops_logged_invariant[OF recency_invariant_init[OF m] c'(1)]
  obtain lu step' where lu: "run_ops_logged ?init (\<lambda>k. 0) 1 (take n ops) = Inr (c', lu)"
    "recency_invariant c' lu step'"
    by blast
  then have ro: "in_recency_order lu (cache c')" by (simp add: recency_invariant_def list_all_iff)
  have ev: "\<forall>key val now.
            \<not> key_in key (cache c') \<and> int (length (cache c')) + 1 > m \<longrightarrow>
              LRUCache_set now key val c' = Inr (c'\<lparr>cache := tl (cache c' @ [(key, (val, now))])\<rparr>)
              \<and> (cache c' \<noteq> [] \<longrightarrow>
                    least_recently_used lu (cache c') (hd (cache c'))
                    \<and> tl (cache c' @ [(key, (val, now))]) = tl (cache c') @ [(key, (val, now))])"
  proof (intro allI impI conjI)
    fix key val now
    assume a: "\<not> key_in key (cache c') \<and> int (length (cache c')) + 1 > m"
    then show "LRUCache_set now key val c' = Inr (c'\<lparr>cache := tl (cache c' @ [(key, (val, now))])\<rparr>)"
      using c'(2) by (auto intro: set_evicts_oldest)
  next
    fix key val now
    assume "cache c' \<noteq> []"
    then show "least_recently_used lu (cache c') (hd (cache c'))"
      using ro by (rule head_least_recently_used[rotated])
  next
    fix key val now
    assume "cache c' \<noteq> []"
    then show "tl (cache c' @ [(key, (val, now))]) = tl (cache c') @ [(key, (val, now))]"
      by simp
  qed
  show "\<exists>(c'::'v LRUCache) last_use.
        run_ops ?init (take n ops) = Inr c'
      \<and> run_ops_logged ?init (\<lambda>k. 0) 1 (take n ops) = Inr (c', last_use)
      \<and> int (length (cache c')) \<le> m
      \<and> in_recency_order last_use (cache c')
      \<and> (\<forall>key val now.
            \<not> key_in key (cache c') \<and> int (length (cache c')) + 1 > m \<longrightarrow>
              LRUCache_set now key val c' = Inr (c'\<lparr>cache := tl (cache c' @ [(key, (val, now))])\<rparr>)
              \<and> (cache c' \<noteq> [] \<longrightarrow>
                    least_recently_used last_use (cache c') (hd (cache c'))
                    \<and> tl (cache c' @ [(key, (val, now))]) = tl (cache c') @ [(key, (val, now))]))"
    by (intro exI[of _ c'] exI[of _ lu] conjI) (rule c'(1), rule lu(1), rule c'(3), rule ro, rule ev)
next
  fix c :: "'v LRUCache" and key val now
  show "\<not> key_in key (cache c) \<and> int (length (cache c)) + 1 > max_size c
         \<longrightarrow> LRUCache_set now key val c = Inr (c\<lparr>cache := tl (cache c @ [(key, (val, now))])\<rparr>)"
    by (auto intro: set_evicts_oldest)
qed

lemma run3_logged:
  "run_ops_logged (LRUCache_init 2 300) (\<lambda>k. 0) 1
      [OpSet ''a'' (1::nat) 0, OpSet ''b'' 2 1, OpGet ''a'' 2]
   = Inr (\<lparr>max_size = 2, ttl_seconds = 300, cache = [(''b'', 2, 1), (''a'', 1, 0)], hits = 1, misses = 0\<rparr>,
          (\<lambda>k. 0)(''a'' := 1, ''b'' := 2, ''a'' := 3))"
  by (simp add: LRUCache_init_def LRUCache_set_def LRUCache_get_def Let_def key_in_def
      od_assign_def move_to_end_def od_delete_def popitem_first_def is_hit_def note_use_def
      numeral_2_eq_2 numeral_3_eq_3)

text \<open>
  Witness for C7: capacity 2; after \<open>set a\<close>, \<open>set b\<close>, \<open>get a\<close> the stored order is
  \<open>b\<close>, \<open>a\<close> (the \<open>get\<close> has moved \<open>a\<close> behind \<open>b\<close>), \<open>b\<close> is the least recently used
  entry, and \<open>set c\<close> evicts \<open>b\<close>.
\<close>

theorem C7_size_bounded_lru_evicted_witness:
  "(0::int) \<le> 2
   \<and> run_ops_logged (LRUCache_init 2 300) (\<lambda>k. 0) 1
        [OpSet ''a'' (1::nat) 0, OpSet ''b'' 2 1, OpGet ''a'' 2]
      = Inr (\<lparr>max_size = 2, ttl_seconds = 300, cache = [(''b'', 2, 1), (''a'', 1, 0)], hits = 1, misses = 0\<rparr>,
             (\<lambda>k. 0)(''a'' := 1, ''b'' := 2, ''a'' := 3))
   \<and> in_recency_order ((\<lambda>k. 0)(''a'' := 1, ''b'' := 2, ''a'' := 3))
        [(''b'', 2::nat, 1::real), (''a'', 1, 0)]
   \<and> least_recently_used ((\<lambda>k. 0)(''a'' := 1, ''b'' := 2, ''a'' := 3))
        [(''b'', 2::nat, 1::real), (''a'', 1, 0)] (''b'', 2, 1)
   \<and> LRUCache_set 3 ''c'' (3::nat)
        \<lparr>max_size = 2, ttl_seconds = 300, cache = [(''b'', 2, 1), (''a'', 1, 0)], hits = 1, misses = 0\<rparr>
      = Inr \<lparr>max_size = 2, ttl_seconds = 300, cache = [(''a'', 1, 0), (''c'', 3, 3)], hits = 1, misses = 0\<rparr>"
proof -
  let ?ops = "[OpSet ''a'' (1::nat) 0, OpSet ''b'' 2 1, OpGet ''a'' 2]"
  let ?C = "\<lparr>max_size = 2, ttl_seconds = 300, cache = [(''b'', 2::nat, 1::real), (''a'', 1, 0)],
             hits = 1, misses = 0\<rparr>"
  let ?L = "(\<lambda>k. 0)(''a'' := 1, ''b'' := 2, ''a'' := (3::nat))"
  have h: "(0::int) \<le> 2" by simp
  have t: "take 3 ?ops = ?ops" by simp
  from C7_size_bounded_lru_evicted[OF h, of 300 ?ops]
  have "\<exists>(c'::nat LRUCache) last_use.
        run_ops (LRUCache_init 2 300) (take 3 ?ops) = Inr c'
      \<and> run_ops_logged (LRUCache_init 2 300) (\<lambda>k. 0) 1 (take 3 ?ops) = Inr (c', last_use)
      \<and> int (length (cache c')) \<le> 2
      \<and> in_recency_order last_use (cache c')
      \<and> (\<forall>key val now.
            \<not> key_in key (cache c') \<and> int (length (cache c')) + 1 > 2 \<longrightarrow>
              LRUCache_set now key val c' = Inr (c'\<lparr>cache := tl (cache c' @ [(key, (val, now))])\<rparr>)
              \<and> (cache c' \<noteq> [] \<longrightarrow>
                    least_recently_used last_use (cache c') (hd (cache c'))
                    \<and> tl (cache c' @ [(key, (val, now))]) = tl (cache c') @ [(key, (val, now))]))"
    by blast
  then obtain c' :: "nat LRUCache" and lu where
    l: "run_ops_logged (LRUCache_init 2 300) (\<lambda>k. 0) 1 ?ops = Inr (c', lu)"
    and ro: "in_recency_order lu (cache c')"
    and ev: "\<And>key val now. \<not> key_in key (cache c') \<and> int (length (cache c')) + 1 > 2 \<Longrightarrow>
              LRUCache_set now key val c' = Inr (c'\<lparr>cache := tl (cache c' @ [(key, (val, now))])\<rparr>)
              \<and> (cache c' \<noteq> [] \<longrightarrow>
                    least_recently_used lu (cache c') (hd (cache c'))
                    \<and> tl (cache c' @ [(key, (val, now))]) = tl (cache c') @ [(key, (val, now))])"
    unfolding t by blast
  from l have eq: "c' = ?C" "lu = ?L"
    unfolding run3_logged by simp_all
  have pre: "\<not> key_in ''c'' (cache ?C) \<and> int (length (cache ?C)) + 1 > 2"
    by (simp add: key_in_def)
  note e = ev[unfolded eq, OF pre, of 3 3]
  have a: "run_ops_logged (LRUCache_init 2 300) (\<lambda>k. 0) 1 ?ops = Inr (?C, ?L)"
    using l eq by simp
  have b: "in_recency_order ?L [(''b'', 2::nat, 1::real), (''a'', 1, 0)]"
    using ro eq by simp
  have c: "least_recently_used ?L [(''b'', 2::nat, 1::real), (''a'', 1, 0)] (''b'', 2, 1)"
    using e by simp
  have d: "LRUCache_set 3 ''c'' (3::nat) ?C
      = Inr \<lparr>max_size = 2, ttl_seconds = 300, cache = [(''a'', 1, 0), (''c'', 3, 3)], hits = 1, misses = 0\<rparr>"
    using e by simp
  show ?thesis by (intro conjI) (rule h, rule a, rule b, rule c, rule d)
qed

subsection \<open>Cache statistics\<close>

lemma LRUCache_get_counters:
  "hits (snd (LRUCache_get now key c)) + misses (snd (LRUCache_get now key c)) = hits c + misses c + 1
   \<and> hits c \<le> hits (snd (LRUCache_get now key c))
   \<and> misses c \<le> misses (snd (LRUCache_get now key c))"
  by (auto simp: LRUCache_get_def split: option.splits)

lemma LRUCache_set_counters:
  "LRUCache_set now key val c = Inr c' \<Longrightarrow> hits c' = hits c \<and> misses c' = misses c"
  by (auto simp: LRUCache_set_def Let_def split: if_splits sum.splits)

lemma apply_op_counters:
  "apply_op c x = Inr c' \<Longrightarrow>
   hits c' + misses c' = hits c + misses c + (if is_get x then 1 else 0)
   \<and> hits c \<le> hits c' \<and> misses c \<le> misses c'"
proof (cases x)
  case (OpGet key now)
  assume "apply_op c x = Inr c'"
  then show ?thesis using OpGet LRUCache_get_counters[of now key c] by auto
next
  case (OpSet key val now)
  assume "apply_op c x = Inr c'"
  then show ?thesis using OpSet LRUCache_set_counters[of now key val c c'] by auto
qed

lemma run_ops_counters:
  "run_ops c xs = Inr c' \<Longrightarrow>
   hits c' + misses c' = hits c + misses c + int (count_gets xs)
   \<and> hits c \<le> hits c' \<and> misses c \<le> misses c'"
proof (induction xs arbitrary: c)
  case Nil
  then show ?case by (simp add: count_gets_def)
next
  case (Cons x xs)
  from Cons.prems obtain c1 where c1: "apply_op c x = Inr c1" "run_ops c1 xs = Inr c'"
    by (auto split: sum.splits)
  from apply_op_counters[OF c1(1)] Cons.IH[OF c1(2)] show ?case
    by (auto simp: count_gets_def)
qed

lemma hit_rate_get_stats:
  "hit_rate (LRUCache_get_stats c) =
     (if hits c + misses c > 0 then real_of_int (hits c) / real_of_int (hits c + misses c) * 100 else 0)"
  by (simp add: LRUCache_get_stats_def Let_def)

text \<open>
  C2, amended: for every cache instance reached from a fresh cache by set and get calls,
  \<open>hits + misses\<close> is the number of get calls made, and \<open>get_stats\<close> returns as
  \<open>hit_rate\<close> the percentage \<open>hits / (hits + misses) * 100\<close>, and 0 when no get has
  been performed yet.
\<close>

theorem C2_hit_rate_percentage:
  "run_ops (LRUCache_init m t) xs = Inr c \<Longrightarrow>
   hits c + misses c = int (count_gets xs) \<and> 0 \<le> hits c \<and> 0 \<le> misses c
   \<and> hit_rate (LRUCache_get_stats c) =
       (if count_gets xs = 0 then 0
        else real_of_int (hits c) / real_of_int (hits c + misses c) * 100)"
proof -
  assume r: "run_ops (LRUCache_init m t) xs = Inr c"
  from run_ops_counters[OF r]
  have a: "hits c + misses c = int (count_gets xs)" "0 \<le> hits c" "0 \<le> misses c"
    by (simp_all add: LRUCache_init_def)
  show ?thesis using a by (simp add: hit_rate_get_stats)
qed

text \<open>Witness for C2: one set, one hit and one miss give a hit rate of 50 percent.\<close>

theorem C2_hit_rate_percentage_witness:
  "run_ops (LRUCache_init 1000 300) [OpSet ''a'' (7::nat) 0, OpGet ''a'' 1, OpGet ''b'' 2]
     = Inr \<lparr>max_size = 1000, ttl_seconds = 300, cache = [(''a'', 7, 0)], hits = 1, misses = 1\<rparr>
   \<and> hit_rate (LRUCache_get_stats
        \<lparr>max_size = 1000, ttl_seconds = 300, cache = [(''a'', 7::nat, 0)], hits = 1, misses = 1\<rparr>) = 50"
proof -
  have r: "run_ops (LRUCache_init 1000 300) [OpSet ''a'' (7::nat) 0, OpGet ''a'' 1, OpGet ''b'' 2]
     = Inr \<lparr>max_size = 1000, ttl_seconds = 300, cache = [(''a'', 7, 0)], hits = 1, misses = 1\<rparr>"
    by (simp add: LRUCache_init_def LRUCache_set_def LRUCache_get_def Let_def key_in_def
      od_assign_def move_to_end_def od_delete_def popitem_first_def)
  from C2_hit_rate_percentage[OF r] have "hit_rate (LRUCache_get_stats
        \<lparr>max_size = 1000, ttl_seconds = 300, cache = [(''a'', 7::nat, 0)], hits = 1, misses = 1\<rparr>) = 50"
    by (simp add: count_gets_def)
  with r show ?thesis by simp
qed

text \<open>
  C2, as the specification states it, fails: after one set, one hit and one miss the
  cache reports a hit rate of 50, not the fraction 1/2.
\<close>

theorem C2_hit_rate_not_fraction:
  "run_ops (LRUCache_init 1000 300) [OpSet ''a'' (7::nat) 0, OpGet ''a'' 1, OpGet ''b'' 2]
     = Inr \<lparr>max_size = 1000, ttl_seconds = 300, cache = [(''a'', 7, 0)], hits = 1, misses = 1\<rparr>
   \<and> hit_rate (LRUCache_get_stats
        \<lparr>max_size = 1000, ttl_seconds = 300, cache = [(''a'', 7::nat, 0)], hits = 1, misses = 1\<rparr>) = 50
   \<and> hit_rate (LRUCache_get_stats
        \<lparr>max_size = 1000, ttl_seconds = 300, cache = [(''a'', 7::nat, 0)], hits = 1, misses = 1\<rparr>)
       \<noteq> 1 / (1 + 1)"
  by (simp add: LRUCache_init_def LRUCache_set_def LRUCache_get_def Let_def key_in_def
      od_assign_def move_to_end_def od_delete_def popitem_first_def LRUCache_get_stats_def)


subsection \<open>Performance monitor\<close>

lemma percentile_index_bounds:
  "0 < n \<Longrightarrow> n div 2 < n \<and> p95_index n < n \<and> p99_index n < n"
  unfolding p95_index_def p99_index_def by (intro conjI) linarith+

lemma p95_index_floor: "p95_index n = nat \<lfloor>real n * 0.95\<rfloor>"
proof -
  have "real n * 0.95 = real (n * 95) / real 100" by simp
  then have "\<lfloor>real n * 0.95\<rfloor> = int ((n * 95) div 100)"
    by (simp only: floor_divide_of_nat_eq)
  then show ?thesis by (simp add: p95_index_def)
qed

lemma p99_index_floor: "p99_index n = nat \<lfloor>real n * 0.99\<rfloor>"
proof -
  have "real n * 0.99 = real (n * 99) / real 100" by simp
  then have "\<lfloor>real n * 0.99\<rfloor> = int ((n * 99) div 100)"
    by (simp only: floor_divide_of_nat_eq)
  then show ?thesis by (simp add: p99_index_def)
qed

lemma get_stats_nonempty:
  assumes "m operation = Some timings" and "timings \<noteq> []"
  shows "PerformanceMonitor_get_stats m operation =
     Inr (Some \<lparr>count = length timings,
                min_ms = fold min (tl timings) (hd timings),
                max_ms = fold max (tl timings) (hd timings),
                avg = sum_list timings / real (length timings),
                p50 = sort timings ! (length timings div 2),
                p95 = sort timings ! p95_index (length timings),
                p99 = sort timings ! p99_index (length timings)\<rparr>)"
proof -
  from assms(2) have n: "0 < length timings" by simp
  from assms(2) obtain x rest where xs: "timings = x # rest" by (cases timings) auto
  have mn: "py_min timings = Inr (fold min (tl timings) (hd timings))"
    by (simp add: py_min_def xs)
  have mx: "py_max timings = Inr (fold max (tl timings) (hd timings))"
    by (simp add: py_max_def xs)
  have av: "py_avg timings = Inr (sum_list timings / real (length timings))"
    using n by (simp add: py_avg_def)
  have ix: "\<And>i. i < length timings \<Longrightarrow> py_index (sort timings) i = Inr (sort timings ! i)"
    by (simp add: py_index_def)
  note b = percentile_index_bounds[OF n]
  show ?thesis
    using assms b
    by (simp add: PerformanceMonitor_get_stats_def Let_def and_then_def mn mx av ix)
qed

lemma sort_fixture: "sort fixture_1_100 = fixture_1_100"
proof -
  have "sorted fixture_1_100"
    unfolding fixture_1_100_def by (simp add: sorted_map sorted_wrt_iff_nth_less)
  then show ?thesis by (simp add: sort_key_id_if_sorted)
qed

lemma fixture_p95: "sort fixture_1_100 ! 95 = 96"
  unfolding sort_fixture by (simp add: fixture_1_100_def)

text \<open>
  C8: for every operation with a non-empty series of \<open>n\<close> samples, \<open>get_stats\<close> returns
  statistics whose p95 and p99 are the entries of the sorted series at the indices
  \<open>floor(n * 0.95)\<close> and \<open>floor(n * 0.99)\<close>; for the fixture of the 100 samples 1 to 100,
  p95 is the sorted sample at index 95 (the value 96).
\<close>

theorem C8_percentiles_floor_indexed:
  "(m operation = Some timings \<and> timings \<noteq> [] \<longrightarrow>
      (\<exists>st. PerformanceMonitor_get_stats m operation = Inr (Some st)
         \<and> p95 st = sort timings ! nat \<lfloor>real (length timings) * 0.95\<rfloor>
         \<and> p99 st = sort timings ! nat \<lfloor>real (length timings) * 0.99\<rfloor>))
   \<and> (\<exists>st. PerformanceMonitor_get_stats [''op'' \<mapsto> fixture_1_100] ''op'' = Inr (Some st)
         \<and> p95 st = sort fixture_1_100 ! 95 \<and> p95 st = 96)"
proof (intro conjI impI)
  assume a: "m operation = Some timings \<and> timings \<noteq> []"
  then show "\<exists>st. PerformanceMonitor_get_stats m operation = Inr (Some st)
         \<and> p95 st = sort timings ! nat \<lfloor>real (length timings) * 0.95\<rfloor>
         \<and> p99 st = sort timings ! nat \<lfloor>real (length timings) * 0.99\<rfloor>"
    by (simp add: get_stats_nonempty p95_index_floor p99_index_floor)
next
  have ne: "fixture_1_100 \<noteq> []" by (simp add: fixture_1_100_def)
  have len: "length fixture_1_100 = 100" by (simp add: fixture_1_100_def)
  have "p95_index 100 = 95" by (simp add: p95_index_def)
  then show "\<exists>st. PerformanceMonitor_get_stats [''op'' \<mapsto> fixture_1_100] ''op'' = Inr (Some st)
         \<and> p95 st = sort fixture_1_100 ! 95 \<and> p95 st = 96"
    using get_stats_nonempty[of "[''op'' \<mapsto> fixture_1_100]" "''op''" fixture_1_100, OF _ ne]
    by (simp add: len fixture_p95)
qed

lemma sort3: "sort [30, 10, 20 :: real] = [10, 20, 30]"
  by simp

text \<open>Witness for C8: the series 30, 10, 20; both indices are 2, both percentiles 30.\<close>

theorem C8_percentiles_floor_indexed_witness:
  "\<exists>st. PerformanceMonitor_get_stats [''bridge_request'' \<mapsto> [30, 10, 20]] ''bridge_request''
          = Inr (Some st) \<and> p95 st = 30 \<and> p99 st = 30"
proof -
  have pre: "[''bridge_request'' \<mapsto> [30, 10, 20 :: real]] ''bridge_request'' = Some [30, 10, 20]
      \<and> [30, 10, 20 :: real] \<noteq> []"
    by simp
  have i: "nat \<lfloor>real (length [30, 10, 20 :: real]) * 0.95\<rfloor> = 2"
          "nat \<lfloor>real (length [30, 10, 20 :: real]) * 0.99\<rfloor> = 2"
    by (simp_all add: p95_index_floor[symmetric] p99_index_floor[symmetric] p95_index_def p99_index_def)
  from C8_percentiles_floor_indexed[of "[''bridge_request'' \<mapsto> [30, 10, 20]]" "''bridge_request''" "[30, 10, 20]"] pre
  obtain st where "PerformanceMonitor_get_stats [''bridge_request'' \<mapsto> [30, 10, 20]] ''bridge_request''
          = Inr (Some st)"
     "p95 st = sort [30, 10, 20] ! nat \<lfloor>real (length [30, 10, 20 :: real]) * 0.95\<rfloor>"
     "p99 st = sort [30, 10, 20] ! nat \<lfloor>real (length [30, 10, 20 :: real]) * 0.99\<rfloor>"
    by blast
  then show ?thesis
    unfolding i sort3 by simp
qed

text \<open>
  C9: \<open>get_stats\<close> returns for every operation name, never raising: the empty result when
  the operation has no recorded samples, and for a non-empty series of \<open>n\<close> samples the
  indices \<open>n // 2\<close>, \<open>floor(n * 0.95)\<close> and \<open>floor(n * 0.99)\<close> are below \<open>n\<close>, so that no
  lookup into the sorted window is out of range.
\<close>

theorem C9_get_stats_total:
  "(\<exists>r. PerformanceMonitor_get_stats m operation = Inr r)
   \<and> (m operation = None \<or> m operation = Some [] \<longrightarrow> PerformanceMonitor_get_stats m operation = Inr None)
   \<and> (\<forall>n. 0 < n \<longrightarrow> n div 2 < n \<and> p95_index n < n \<and> p99_index n < n)
   \<and> (\<forall>timings. m operation = Some timings \<and> timings \<noteq> [] \<longrightarrow>
         py_index (sort timings) (length (sort timings) div 2) \<noteq> Inl IndexError
       \<and> py_index (sort timings) (p95_index (length (sort timings))) \<noteq> Inl IndexError
       \<and> py_index (sort timings) (p99_index (length (sort timings))) \<noteq> Inl IndexError)"
proof (intro conjI allI impI)
  show "\<exists>r. PerformanceMonitor_get_stats m operation = Inr r"
  proof (cases "m operation")
    case None
    then show ?thesis by (simp add: PerformanceMonitor_get_stats_def)
  next
    case (Some timings)
    show ?thesis
    proof (cases "timings = []")
      case True
      then show ?thesis using Some by (simp add: PerformanceMonitor_get_stats_def)
    next
      case False
      from get_stats_nonempty[of m operation timings] Some False show ?thesis by simp
    qed
  qed
next
  assume "m operation = None \<or> m operation = Some []"
  then show "PerformanceMonitor_get_stats m operation = Inr None"
    by (auto simp: PerformanceMonitor_get_stats_def)
next
  fix n :: nat assume "0 < n"
  then show "n div 2 < n" "p95_index n < n" "p99_index n < n"
    using percentile_index_bounds by simp_all
next
  fix timings assume a: "m operation = Some timings \<and> timings \<noteq> []"
  then have "0 < length (sort timings)" by simp
  from percentile_index_bounds[OF this]
  show "py_index (sort timings) (length (sort timings) div 2) \<noteq> Inl IndexError"
       "py_index (sort timings) (p95_index (length (sort timings))) \<noteq> Inl IndexError"
       "py_index (sort timings) (p99_index (length (sort timings))) \<noteq> Inl IndexError"
    by (simp_all add: py_index_def)
qed

text \<open>Witness for C9: no samples at all, and the series 30, 10, 20.\<close>

theorem C9_get_stats_total_witness:
  "PerformanceMonitor_get_stats Map.empty ''bridge_request'' = Inr None
   \<and> (\<exists>r. PerformanceMonitor_get_stats [''bridge_request'' \<mapsto> [30, 10, 20]] ''bridge_request'' = Inr r)
   \<and> (3::nat) div 2 < 3 \<and> p95_index 3 < 3 \<and> p99_index 3 < 3
   \<and> py_index (sort [30, 10, 20 :: real]) (p95_index (length (sort [30, 10, 20 :: real]))) \<noteq> Inl IndexError"
proof -
  have a: "PerformanceMonitor_get_stats Map.empty ''bridge_request'' = Inr None"
    using C9_get_stats_total[of Map.empty "''bridge_request''"] by simp
  note inst = C9_get_stats_total[of "[''bridge_request'' \<mapsto> [30, 10, 20]]" "''bridge_request''"]
  from inst have b: "\<exists>r. PerformanceMonitor_get_stats [''bridge_request'' \<mapsto> [30, 10, 20]] ''bridge_request'' = Inr r"
    by (rule conjunct1)
  have p: "(0::nat) < 3" by simp
  from inst p have c: "(3::nat) div 2 < 3 \<and> p95_index 3 < 3 \<and> p99_index 3 < 3"
    by blast
  have pre: "[''bridge_request'' \<mapsto> [30, 10, 20 :: real]] ''bridge_request'' = Some [30, 10, 20]
      \<and> [30, 10, 20 :: real] \<noteq> []"
    by simp
  from inst pre have d: "py_index (sort [30, 10, 20 :: real]) (p95_index (length (sort [30, 10, 20 :: real]))) \<noteq> Inl IndexError"
    by blast
  from a b c d show ?thesis by (intro conjI) simp_all
qed

subsection \<open>Circuit breaker and fallback selection\<close>

lemma is_open_iff:
  "is_circuit_breaker_open cfg stats now kind \<longleftrightarrow>
     enable_circuit_breaker cfg
     \<and> persisted_failure_count stats kind \<ge> circuit_breaker_failure_threshold cfg
     \<and> (\<exists>t. persisted_last_failure stats kind = Some t
            \<and> now - t < circuit_breaker_reset_timeout cfg * 1000000)"
  by (auto simp: is_circuit_breaker_open_def split: option.splits)

lemma update_success:
  "enable_circuit_breaker cfg \<Longrightarrow>
   persisted_failure_count (update_circuit_breaker cfg stats now kind False) kind = 0
   \<and> persisted_last_failure (update_circuit_breaker cfg stats now kind False) kind = None"
  by (simp add: update_circuit_breaker_def persisted_failure_count_def persisted_last_failure_def Let_def)

lemma update_failure:
  "enable_circuit_breaker cfg \<Longrightarrow>
   persisted_failure_count (update_circuit_breaker cfg stats now kind True) kind
     = persisted_failure_count stats kind + 1
   \<and> persisted_last_failure (update_circuit_breaker cfg stats now kind True) kind = Some now"
  by (simp add: update_circuit_breaker_def persisted_failure_count_def persisted_last_failure_def Let_def
      split: option.splits)

lemma update_other_kind:
  "kind' \<noteq> kind \<Longrightarrow>
   persisted_failure_count (update_circuit_breaker cfg stats now kind b) kind'
     = persisted_failure_count stats kind'
   \<and> persisted_last_failure (update_circuit_breaker cfg stats now kind b) kind'
     = persisted_last_failure stats kind'"
  by (simp add: update_circuit_breaker_def persisted_failure_count_def persisted_last_failure_def Let_def)

text \<open>
  C4: with the circuit breaker enabled (the default), the breaker of an error kind is open
  if and only if the persisted failure count is at least the failure threshold (default 5)
  and there is a last failure whose age is strictly less than the reset timeout (default
  300 s); recording a success sets the failure count to 0 and the last failure to none, so
  that the breaker is closed at once (at any time \<open>now'\<close>); recording a failure adds one to
  the failure count and sets the last failure to now.
\<close>

theorem C4_circuit_open_iff_and_updates:
  "enable_circuit_breaker cfg \<Longrightarrow>
   (is_circuit_breaker_open cfg stats now kind \<longleftrightarrow>
      persisted_failure_count stats kind \<ge> circuit_breaker_failure_threshold cfg
      \<and> (\<exists>t. persisted_last_failure stats kind = Some t
             \<and> now - t < circuit_breaker_reset_timeout cfg * 1000000))
   \<and> persisted_failure_count (update_circuit_breaker cfg stats now kind False) kind = 0
   \<and> persisted_last_failure (update_circuit_breaker cfg stats now kind False) kind = None
   \<and> \<not> is_circuit_breaker_open cfg (update_circuit_breaker cfg stats now kind False) now' kind
   \<and> persisted_failure_count (update_circuit_breaker cfg stats now kind True) kind
        = persisted_failure_count stats kind + 1
   \<and> persisted_last_failure (update_circuit_breaker cfg stats now kind True) kind = Some now
   \<and> enable_circuit_breaker default_config
   \<and> circuit_breaker_failure_threshold default_config = 5
   \<and> circuit_breaker_reset_timeout default_config = 300"
proof -
  assume en: "enable_circuit_breaker cfg"
  have a: "is_circuit_breaker_open cfg stats now kind \<longleftrightarrow>
      persisted_failure_count stats kind \<ge> circuit_breaker_failure_threshold cfg
      \<and> (\<exists>t. persisted_last_failure stats kind = Some t
             \<and> now - t < circuit_breaker_reset_timeout cfg * 1000000)"
    using en by (simp add: is_open_iff)
  note s = update_success[OF en, of stats now kind]
  have b: "\<not> is_circuit_breaker_open cfg (update_circuit_breaker cfg stats now kind False) now' kind"
    using s by (simp add: is_open_iff)
  note f = update_failure[OF en, of stats now kind]
  have d: "enable_circuit_breaker default_config"
    "circuit_breaker_failure_threshold default_config = 5"
    "circuit_breaker_reset_timeout default_config = 300"
    by (simp_all add: default_config_def)
  from a s b f d show ?thesis by blast
qed

text \<open>
  C3: for every error context whose kind the strategy table maps to RetryWithBackoff
  (Timeout is one), a retry count of at least \<open>max_retry_attempts\<close> (default 3) makes the
  selector return NativeTool; for every kind, an open circuit breaker makes it return
  NativeTool whatever the table says; with the breaker closed and retries left it returns
  the table's entry.
\<close>

theorem C3_retry_exhausted_or_open_selects_native:
  "(error_strategies (error_type ctx) = RETRY_WITH_BACKOFF
      \<and> retry_count ctx \<ge> max_retry_attempts cfg
      \<longrightarrow> get_fallback_strategy cfg stats now ctx = NATIVE_TOOL)
   \<and> (is_circuit_breaker_open cfg stats now (error_type ctx)
      \<longrightarrow> get_fallback_strategy cfg stats now ctx = NATIVE_TOOL)
   \<and> (\<not> is_circuit_breaker_open cfg stats now (error_type ctx)
      \<and> retry_count ctx < max_retry_attempts cfg
      \<longrightarrow> get_fallback_strategy cfg stats now ctx = error_strategies (error_type ctx))
   \<and> error_strategies TIMEOUT = RETRY_WITH_BACKOFF
   \<and> max_retry_attempts default_config = 3"
proof (intro conjI impI)
  assume "error_strategies (error_type ctx) = RETRY_WITH_BACKOFF
      \<and> retry_count ctx \<ge> max_retry_attempts cfg"
  then show "get_fallback_strategy cfg stats now ctx = NATIVE_TOOL"
    by (cases "is_circuit_breaker_open cfg stats now (error_type ctx)")
       (simp_all add: get_fallback_strategy_def Let_def)
next
  assume "is_circuit_breaker_open cfg stats now (error_type ctx)"
  then show "get_fallback_strategy cfg stats now ctx = NATIVE_TOOL"
    by (simp add: get_fallback_strategy_def)
next
  assume "\<not> is_circuit_breaker_open cfg stats now (error_type ctx)
      \<and> retry_count ctx < max_retry_attempts cfg"
  then show "get_fallback_strategy cfg stats now ctx = error_strategies (error_type ctx)"
    by (simp add: get_fallback_strategy_def Let_def)
next
  show "error_strategies TIMEOUT = RETRY_WITH_BACKOFF" by simp
next
  show "max_retry_attempts default_config = 3" by (simp add: default_config_def)
qed


text \<open>
  Witness for C3: Timeout with 3 retries gives NativeTool, with 2 retries
  RetryWithBackoff; MemoryError (table entry GracefulDegradation) with an open breaker
  gives NativeTool.
\<close>

theorem C3_retry_exhausted_or_open_selects_native_witness:
  "get_fallback_strategy default_config default_stats 0
      \<lparr>tool_name = PStr ''mcp__morph__read_file'', tool_input = PDict [],
       error_type = TIMEOUT, error_message = ''Operation timed out'', timestamp = 0,
       session_id = ''1'', retry_count = 3, fallback_attempted = False\<rparr> = NATIVE_TOOL
   \<and> get_fallback_strategy default_config default_stats 0
      \<lparr>tool_name = PStr ''mcp__morph__read_file'', tool_input = PDict [],
       error_type = TIMEOUT, error_message = ''Operation timed out'', timestamp = 0,
       session_id = ''1'', retry_count = 2, fallback_attempted = False\<rparr> = RETRY_WITH_BACKOFF
   \<and> get_fallback_strategy default_config
        (default_stats\<lparr>circuit_breaker := [MEMORY_ERROR \<mapsto> \<lparr>failure_count = 5, last_failure = Some 0\<rparr>]\<rparr>)
        1000000
      \<lparr>tool_name = PStr ''mcp__morph__read_file'', tool_input = PDict [],
       error_type = MEMORY_ERROR, error_message = ''out of memory'', timestamp = 1000000,
       session_id = ''1'', retry_count = 0, fallback_attempted = False\<rparr> = NATIVE_TOOL
   \<and> error_strategies MEMORY_ERROR = GRACEFUL_DEGRADATION"
proof -
  let ?c3 = "\<lparr>tool_name = PStr ''mcp__morph__read_file'', tool_input = PDict [],
       error_type = TIMEOUT, error_message = ''Operation timed out'', timestamp = 0,
       session_id = ''1'', retry_count = 3, fallback_attempted = False\<rparr>"
  let ?c2 = "\<lparr>tool_name = PStr ''mcp__morph__read_file'', tool_input = PDict [],
       error_type = TIMEOUT, error_message = ''Operation timed out'', timestamp = 0,
       session_id = ''1'', retry_count = 2, fallback_attempted = False\<rparr>"
  let ?cm = "\<lparr>tool_name = PStr ''mcp__morph__read_file'', tool_input = PDict [],
       error_type = MEMORY_ERROR, error_message = ''out of memory'', timestamp = 1000000,
       session_id = ''1'', retry_count = 0, fallback_attempted = False\<rparr>"
  let ?open = "default_stats\<lparr>circuit_breaker := [MEMORY_ERROR \<mapsto> \<lparr>failure_count = 5, last_failure = Some 0\<rparr>]\<rparr>"
  have p3: "error_strategies (error_type ?c3) = RETRY_WITH_BACKOFF
      \<and> retry_count ?c3 \<ge> max_retry_attempts default_config"
    by (simp add: default_config_def)
  from C3_retry_exhausted_or_open_selects_native[of ?c3 default_config default_stats 0] p3
  have a: "get_fallback_strategy default_config default_stats 0 ?c3 = NATIVE_TOOL"
    by blast
  have p2: "\<not> is_circuit_breaker_open default_config default_stats 0 (error_type ?c2)
      \<and> retry_count ?c2 < max_retry_attempts default_config"
    by (simp add: default_config_def default_stats_def is_circuit_breaker_open_def
        persisted_failure_count_def)
  from C3_retry_exhausted_or_open_selects_native[of ?c2 default_config default_stats 0] p2
  have "get_fallback_strategy default_config default_stats 0 ?c2 = error_strategies (error_type ?c2)"
    by blast
  then have b: "get_fallback_strategy default_config default_stats 0 ?c2 = RETRY_WITH_BACKOFF"
    by simp
  have pm: "is_circuit_breaker_open default_config ?open 1000000 (error_type ?cm)"
    by (simp add: default_config_def default_stats_def is_circuit_breaker_open_def
        persisted_failure_count_def persisted_last_failure_def)
  from C3_retry_exhausted_or_open_selects_native[of ?cm default_config ?open 1000000] pm
  have c: "get_fallback_strategy default_config ?open 1000000 ?cm = NATIVE_TOOL"
    by blast
  have d: "error_strategies MEMORY_ERROR = GRACEFUL_DEGRADATION" by simp
  show ?thesis by (intro conjI) (rule a, rule b, rule c, rule d)
qed

text \<open>
  Witness for C4, default configuration: 5 failures, the last one 299.999999 s ago: open;
  300 s ago: closed; 4 failures: closed; after a success: closed; a failure on 4 gives 5.
\<close>

theorem C4_circuit_open_iff_and_updates_witness:
  "is_circuit_breaker_open default_config
      (default_stats\<lparr>circuit_breaker := [TIMEOUT \<mapsto> \<lparr>failure_count = 5, last_failure = Some 0\<rparr>]\<rparr>)
      299999999 TIMEOUT
   \<and> \<not> is_circuit_breaker_open default_config
      (default_stats\<lparr>circuit_breaker := [TIMEOUT \<mapsto> \<lparr>failure_count = 5, last_failure = Some 0\<rparr>]\<rparr>)
      300000000 TIMEOUT
   \<and> \<not> is_circuit_breaker_open default_config
      (default_stats\<lparr>circuit_breaker := [TIMEOUT \<mapsto> \<lparr>failure_count = 4, last_failure = Some 0\<rparr>]\<rparr>)
      299999999 TIMEOUT
   \<and> \<not> is_circuit_breaker_open default_config
      (update_circuit_breaker default_config
        (default_stats\<lparr>circuit_breaker := [TIMEOUT \<mapsto> \<lparr>failure_count = 5, last_failure = Some 0\<rparr>]\<rparr>)
        1000000 TIMEOUT False)
      1000000 TIMEOUT
   \<and> persisted_failure_count (update_circuit_breaker default_config
        (default_stats\<lparr>circuit_breaker := [TIMEOUT \<mapsto> \<lparr>failure_count = 4, last_failure = Some 0\<rparr>]\<rparr>)
        1000000 TIMEOUT True) TIMEOUT = 5
   \<and> persisted_last_failure (update_circuit_breaker default_config
        (default_stats\<lparr>circuit_breaker := [TIMEOUT \<mapsto> \<lparr>failure_count = 4, last_failure = Some 0\<rparr>]\<rparr>)
        1000000 TIMEOUT True) TIMEOUT = Some 1000000"
proof -
  let ?s5 = "default_stats\<lparr>circuit_breaker := [TIMEOUT \<mapsto> \<lparr>failure_count = 5, last_failure = Some 0\<rparr>]\<rparr>"
  let ?s4 = "default_stats\<lparr>circuit_breaker := [TIMEOUT \<mapsto> \<lparr>failure_count = 4, last_failure = Some 0\<rparr>]\<rparr>"
  have en: "enable_circuit_breaker default_config" by (simp add: default_config_def)
  have f5: "persisted_failure_count ?s5 TIMEOUT = 5" "persisted_last_failure ?s5 TIMEOUT = Some 0"
    by (simp_all add: persisted_failure_count_def persisted_last_failure_def default_stats_def)
  have f4: "persisted_failure_count ?s4 TIMEOUT = 4" "persisted_last_failure ?s4 TIMEOUT = Some 0"
    by (simp_all add: persisted_failure_count_def persisted_last_failure_def default_stats_def)
  have cf: "circuit_breaker_failure_threshold default_config = 5"
    "circuit_breaker_reset_timeout default_config = 300"
    by (simp_all add: default_config_def)
  from C4_circuit_open_iff_and_updates[OF en, of ?s5 299999999 TIMEOUT]
  have a: "is_circuit_breaker_open default_config ?s5 299999999 TIMEOUT"
    by (simp add: f5 cf)
  from C4_circuit_open_iff_and_updates[OF en, of ?s5 300000000 TIMEOUT]
  have b: "\<not> is_circuit_breaker_open default_config ?s5 300000000 TIMEOUT"
    by (simp add: f5 cf)
  from C4_circuit_open_iff_and_updates[OF en, of ?s4 299999999 TIMEOUT]
  have c: "\<not> is_circuit_breaker_open default_config ?s4 299999999 TIMEOUT"
    by (simp add: f4 cf)
  from C4_circuit_open_iff_and_updates[OF en, of ?s5 1000000 TIMEOUT 1000000]
  have d: "\<not> is_circuit_breaker_open default_config
      (update_circuit_breaker default_config ?s5 1000000 TIMEOUT False) 1000000 TIMEOUT"
    by blast
  from C4_circuit_open_iff_and_updates[OF en, of ?s4 1000000 TIMEOUT]
  have e: "persisted_failure_count (update_circuit_breaker default_config ?s4 1000000 TIMEOUT True) TIMEOUT = 5"
    "persisted_last_failure (update_circuit_breaker default_config ?s4 1000000 TIMEOUT True) TIMEOUT = Some 1000000"
    by (simp_all add: f4)
  show ?thesis by (intro conjI) (rule a, rule b, rule c, rule d, rule e(1), rule e(2))
qed

lemma try_fails_on_null_message:
  "handle_error_try default_config default_stats ''4242'' 0
      (PStr ''mcp__morph__read_file'') (PDict [(''file_path'', PStr ''a.py'')]) PNone
   = (Inl AttributeError, default_stats)"
  by (simp add: handle_error_try_def create_error_context_def)

lemma try_fails_on_list_tool_name:
  "handle_error_try default_config default_stats ''4242'' 0
      (PList [PStr ''Read'']) (PDict []) (PStr ''boom'')
   = (Inl TypeError, default_stats)"
proof -
  have l: "lower ''boom'' = ''boom''" by code_simp
  have c: "classify_error ''boom'' = UNKNOWN_ERROR"
    by (simp add: classify_error_def Let_def l any_keyword_def)
  have o: "\<not> is_circuit_breaker_open default_config default_stats 0 UNKNOWN_ERROR"
    by (simp add: is_circuit_breaker_open_def default_config_def default_stats_def
        persisted_failure_count_def)
  show ?thesis
    by (simp add: handle_error_try_def create_error_context_def c get_fallback_strategy_def o Let_def
        default_config_def fallback_to_native_tool_def const_dict_get_def hashable_def)
qed

text \<open>
  When the write to \<open>sys.stderr\<close> succeeds, \<open>handle_error\<close> returns a descriptor for every
  input: the ultimate fallback when a step of the sequence raised, the descriptor of the
  sequence otherwise.
\<close>

lemma handle_error_returns_when_stderr_writable:
  "(\<exists>r stats'. handle_error cfg stats None sid now name inp msg = (Inr r, stats'))
   \<and> (\<forall>e stats'. handle_error_try cfg stats sid now name inp msg = (Inl e, stats') \<longrightarrow>
        handle_error cfg stats None sid now name inp msg = (Inr (Fallback ''Read'' inp True), stats'))
   \<and> (\<forall>r stats'. handle_error_try cfg stats sid now name inp msg = (Inr r, stats') \<longrightarrow>
        handle_error cfg stats stderr_failure sid now name inp msg = (Inr r, stats'))"
proof -
  obtain res s1 where t: "handle_error_try cfg stats sid now name inp msg = (res, s1)"
    by (cases "handle_error_try cfg stats sid now name inp msg") auto
  show ?thesis
  proof (cases res)
    case (Inl e)
    then show ?thesis using t by (simp add: handle_error_def handle_error_except_def)
  next
    case (Inr r)
    then show ?thesis using t by (simp add: handle_error_def)
  qed
qed

text \<open>
  When the write to \<open>sys.stderr\<close> raises, every failure of a step of the sequence leaves
  \<open>handle_error\<close> as the exception of that write.
\<close>

lemma handle_error_raises_when_stderr_fails:
  "handle_error_try cfg stats sid now name inp msg = (Inl e, stats') \<Longrightarrow>
   handle_error cfg stats (Some e') sid now name inp msg = (Inl e', stats')"
  by (simp add: handle_error_def handle_error_except_def)

text \<open>
  C5, at a call the handler can receive: the error message is JSON null, so that the
  classifier raises AttributeError inside the \<open>try\<close> block, and the process cannot write to
  \<open>sys.stderr\<close> (the write raises OSError). \<open>handle_error\<close> does not return the ultimate
  fallback: the OSError of \<open>traceback.print_exc()\<close> in the \<open>except\<close> handler leaves the
  method. With a writable \<open>sys.stderr\<close> the same call returns the ultimate fallback.
\<close>

theorem C5_handler_raises_on_unwritable_stderr:
  "handle_error_try default_config default_stats ''4242'' 0
      (PStr ''mcp__morph__read_file'') (PDict [(''file_path'', PStr ''a.py'')]) PNone
     = (Inl AttributeError, default_stats)
   \<and> handle_error default_config default_stats (Some OSError) ''4242'' 0
      (PStr ''mcp__morph__read_file'') (PDict [(''file_path'', PStr ''a.py'')]) PNone
     = (Inl OSError, default_stats)
   \<and> handle_error default_config default_stats None ''4242'' 0
      (PStr ''mcp__morph__read_file'') (PDict [(''file_path'', PStr ''a.py'')]) PNone
     = (Inr (Fallback ''Read'' (PDict [(''file_path'', PStr ''a.py'')]) True), default_stats)"
  by (simp add: handle_error_def handle_error_except_def try_fails_on_null_message)

subsection \<open>Tool interceptor\<close>

lemma session_stats_not_serializable: "\<not> json_serializable (session_stats_dict st)"
  by (simp add: session_stats_dict_def)

lemma log_interception_raises:
  "log_interception log_ok now st log_file name act reason = Inl (if log_ok then TypeError else OSError)"
  using session_stats_not_serializable[of st]
  by (simp add: log_interception_def Let_def json_dumps_def and_then_def)

lemma process_tool_call_raises:
  "\<exists>e. fst (process_tool_call getenv argv fs log_ok now st log_file name inp) = Inl e"
  by (auto simp: process_tool_call_def Let_def log_interception_raises
      split: sum.splits bool.splits prod.splits)

lemma interceptor_main_allows:
  "\<exists>e. interceptor_main getenv argv fs log_ok now log_file data = (AllowError e, 0)"
proof (cases "py_get_method data ''tool_name'' (PStr [])")
  case (Inl e)
  then show ?thesis by (simp add: interceptor_main_def and_then_def)
next
  case name: (Inr name)
  show ?thesis
  proof (cases "py_get_method data ''tool_input'' (PDict [])")
    case (Inl e)
    then show ?thesis using name by (simp add: interceptor_main_def and_then_def)
  next
    case (Inr inp)
    from process_tool_call_raises[of getenv argv fs log_ok now "new_session_stats now" log_file name inp]
    obtain e where "fst (process_tool_call getenv argv fs log_ok now (new_session_stats now) log_file name inp) = Inl e"
      by blast
    then show ?thesis using name Inr by (simp add: interceptor_main_def and_then_def)
  qed
qed

text \<open>
  C6, at a call the interceptor can receive: tool Read, \<open>MORPH_ENABLED\<close> set (flag
  \<open>--morph\<close>), \<open>MORPH_API_KEY\<close> and \<open>MORPH_SERVER_URL\<close> not set, log file writable. The call
  is to be intercepted and the validation of the external service fails, but
  \<open>process_tool_call\<close> does not return the fallback response of \<open>create_fallback_response\<close>:
  it raises TypeError, from \<open>json.dumps\<close> on the session statistics in \<open>log_interception\<close>.
\<close>

theorem C6_validation_failure_raises:
  "should_intercept (\<lambda>p. Inr None) ((new_session_stats 0)\<lparr>total_operations := 1\<rparr>)
      (PStr ''Read'') (PDict [(''file_path'', PStr ''a.py'')])
      (parse_flags [''MORPH_ENABLED'' \<mapsto> ''1''] [''morph_tool_interceptor.py'', ''{}'']) = Inr True
   \<and> \<not> validate_morph_server [''MORPH_ENABLED'' \<mapsto> ''1'']
   \<and> fst (process_tool_call [''MORPH_ENABLED'' \<mapsto> ''1''] [''morph_tool_interceptor.py'', ''{}'']
        (\<lambda>p. Inr None) True 0 (new_session_stats 0) []
        (PStr ''Read'') (PDict [(''file_path'', PStr ''a.py'')])) = Inl TypeError
   \<and> fst (process_tool_call [''MORPH_ENABLED'' \<mapsto> ''1''] [''morph_tool_interceptor.py'', ''{}'']
        (\<lambda>p. Inr None) True 0 (new_session_stats 0) []
        (PStr ''Read'') (PDict [(''file_path'', PStr ''a.py'')])) \<noteq> Inr AllowFallback"
proof -
  have f: "parse_flags [''MORPH_ENABLED'' \<mapsto> ''1''] [''morph_tool_interceptor.py'', ''{}''] = [''--morph'']"
    by (simp add: parse_flags_def env_set_def)
  have s: "\<And>st. should_intercept (\<lambda>p. Inr None) st (PStr ''Read'') (PDict [(''file_path'', PStr ''a.py'')]) [''--morph'']
      = Inr True"
    by (simp add: should_intercept_def in_TOOL_MAPPING_def const_dict_get_def hashable_def
        TOOL_MAPPING_def and_then_def)
  have v: "\<not> validate_morph_server [''MORPH_ENABLED'' \<mapsto> ''1'']"
    by (simp add: validate_morph_server_def env_set_def)
  have p: "fst (process_tool_call [''MORPH_ENABLED'' \<mapsto> ''1''] [''morph_tool_interceptor.py'', ''{}'']
        (\<lambda>p. Inr None) True 0 (new_session_stats 0) []
        (PStr ''Read'') (PDict [(''file_path'', PStr ''a.py'')])) = Inl TypeError"
    by (simp add: process_tool_call_def Let_def f s v log_interception_raises)
  show ?thesis using f s v p by simp
qed

lemma no_morph_never_blocks:
  "''--no-morph'' \<in> set (parse_flags getenv argv) \<Longrightarrow>
   fst (process_tool_call getenv argv fs log_ok now st log_file name inp) \<noteq> Inr (Block c t i)"
  by (auto simp: process_tool_call_def Let_def should_intercept_def split: sum.splits)

text \<open>
  C10: for every tool name, tool input and flag list, if the flag list contains
  \<open>--no-morph\<close> then \<open>should_intercept\<close> returns False, whichever of \<open>--morph\<close>,
  \<open>--morphllm\<close>, \<open>--morph-only\<close>, \<open>--morph-fast\<close> the list also holds and whatever the
  auto-activation heuristics would say; and a call processed under such flags is never
  answered with a block response that routes it to the external service.
\<close>

theorem C10_no_morph_takes_precedence:
  "(''--no-morph'' \<in> set flags \<longrightarrow> should_intercept fs st name inp flags = Inr False)
   \<and> (''--no-morph'' \<in> set (parse_flags getenv argv) \<longrightarrow>
        (\<forall>c t i. fst (process_tool_call getenv argv fs log_ok now st log_file name inp)
           \<noteq> Inr (Block c t i)))"
  by (simp add: should_intercept_def no_morph_never_blocks)

text \<open>
  Witness for C10: a MultiEdit call in a session past the auto-activation threshold, with
  every enabling flag set: intercepted without \<open>--no-morph\<close>, not intercepted with it.
\<close>

theorem C10_no_morph_takes_precedence_witness:
  "should_intercept (\<lambda>p. Inr None) ((new_session_stats 0)\<lparr>total_operations := 10\<rparr>)
      (PStr ''MultiEdit'') (PDict [])
      [''--morph'', ''--morphllm'', ''--morph-only'', ''--morph-fast'', ''--no-morph''] = Inr False
   \<and> should_intercept (\<lambda>p. Inr None) ((new_session_stats 0)\<lparr>total_operations := 10\<rparr>)
      (PStr ''MultiEdit'') (PDict [])
      [''--morph'', ''--morphllm'', ''--morph-only'', ''--morph-fast''] = Inr True
   \<and> fst (process_tool_call [''NO_MORPH'' \<mapsto> ''1'', ''MORPH_ENABLED'' \<mapsto> ''1''] [''morph_tool_interceptor.py'', ''{}'']
        (\<lambda>p. Inr None) True 0 (new_session_stats 0) [] (PStr ''Read'') (PDict []))
      \<noteq> Inr (Block 2 (PStr ''mcp__morph__read_file'') (PDict []))"
proof -
  have m: "''--no-morph'' \<in> set [''--morph'', ''--morphllm'', ''--morph-only'', ''--morph-fast'', ''--no-morph'']"
    by simp
  have b: "should_intercept (\<lambda>p. Inr None) ((new_session_stats 0)\<lparr>total_operations := 10\<rparr>)
      (PStr ''MultiEdit'') (PDict [])
      [''--morph'', ''--morphllm'', ''--morph-only'', ''--morph-fast''] = Inr True"
    by (simp add: should_intercept_def in_TOOL_MAPPING_def const_dict_get_def hashable_def
        TOOL_MAPPING_def and_then_def)
  have n: "''--no-morph'' \<in> set (parse_flags [''NO_MORPH'' \<mapsto> ''1'', ''MORPH_ENABLED'' \<mapsto> ''1'']
      [''morph_tool_interceptor.py'', ''{}''])"
    by (simp add: parse_flags_def env_set_def)
  from C10_no_morph_takes_precedence[of "[''--morph'', ''--morphllm'', ''--morph-only'', ''--morph-fast'', ''--no-morph'']"
      "\<lambda>p. Inr None" "(new_session_stats 0)\<lparr>total_operations := 10\<rparr>" "PStr ''MultiEdit''" "PDict []"] m
  have a: "should_intercept (\<lambda>p. Inr None) ((new_session_stats 0)\<lparr>total_operations := 10\<rparr>)
      (PStr ''MultiEdit'') (PDict [])
      [''--morph'', ''--morphllm'', ''--morph-only'', ''--morph-fast'', ''--no-morph''] = Inr False"
    by blast
  from C10_no_morph_takes_precedence[of "[]" "\<lambda>p. Inr None" "new_session_stats 0" "PStr ''Read''" "PDict []"
      "[''NO_MORPH'' \<mapsto> ''1'', ''MORPH_ENABLED'' \<mapsto> ''1'']" "[''morph_tool_interceptor.py'', ''{}'']"
      True 0 "[]"] n
  have c: "fst (process_tool_call [''NO_MORPH'' \<mapsto> ''1'', ''MORPH_ENABLED'' \<mapsto> ''1''] [''morph_tool_interceptor.py'', ''{}'']
        (\<lambda>p. Inr None) True 0 (new_session_stats 0) [] (PStr ''Read'') (PDict []))
      \<noteq> Inr (Block 2 (PStr ''mcp__morph__read_file'') (PDict []))"
    by blast
  show ?thesis by (intro conjI) (rule a, rule b, rule c)
qed

subsection \<open>Bridge routing\<close>

text \<open>
  For a tool name that is a string and call data that come from decoded JSON,
  \<open>route_to_bridge\<close> returns for every outcome of the request, and when the request times
  out (no cached answer having been returned before it) the result is the fallback
  response with \<open>allow\<close> set.
\<close>

lemma LRUCache_set_returns: "\<exists>c'. LRUCache_set now key val c = Inr c'"
  using LRUCache_set_total[of now key val c] by blast

lemma optimize_mcp_routing_returns:
  "\<exists>r c'. optimize_mcp_routing digest now c (PStr name) (PDict []) = (Inr r, c')"
proof -
  obtain k where k: "generate_cache_key digest ''routing'' (PDict [(''tool'', PStr name), (''args'', PDict [])]) = Inr k"
    by (simp add: generate_cache_key_def json_dumps_def and_then_def)
  let ?result = "case map_of routing_map name of None \<Rightarrow> PNone | Some r \<Rightarrow> r"
  obtain got c1 where g: "LRUCache_get now k c = (got, c1)"
    by (cases "LRUCache_get now k c") auto
  obtain c2 where s: "LRUCache_set now k ?result c1 = Inr c2"
    using LRUCache_set_returns[of now k ?result c1] by blast
  show ?thesis
    by (simp add: optimize_mcp_routing_def Let_def k g s const_dict_get_def hashable_def)
qed

lemma select_fallback_route_body_returns:
  "\<exists>r c'. select_fallback_route_body digest now c (PStr name) = (Inr r, c')"
  using optimize_mcp_routing_returns[of digest now c name]
  by (auto simp: select_fallback_route_body_def split: option.splits)

lemma select_fallback_route_returns:
  "\<exists>r c'. select_fallback_route digest render now c (PStr name) = (Inr r, c')"
proof -
  obtain got c1 where g: "LRUCache_get now (''fallback_route:'' @ name) c = (got, c1)"
    by (cases "LRUCache_get now (''fallback_route:'' @ name) c") auto
  obtain r c2 where b: "select_fallback_route_body digest now c1 (PStr name) = (Inr r, c2)"
    using select_fallback_route_body_returns by blast
  obtain c3 where s: "LRUCache_set now (''fallback_route:'' @ name) r c2 = Inr c3"
    using LRUCache_set_returns[of now "''fallback_route:'' @ name" r c2] by blast
  show ?thesis
    using g b s by (simp add: select_fallback_route_def Let_def format_value_def)
qed

lemma bridge_fallback_response_allows:
  "toolName ctx = PStr name \<Longrightarrow>
   \<exists>route c'. bridge_fallback_response digest render now c ctx
      = (Inr (FallbackDecision True (toolArgs ctx) True route), c')"
  using select_fallback_route_returns[of digest render now c name]
  by (auto simp: bridge_fallback_response_def)

lemma route_to_bridge_returns:
  assumes n: "toolName ctx = PStr name"
    and a: "json_serializable (toolArgs ctx)" and p: "json_serializable (persona ctx)"
  shows "\<exists>r c'. route_to_bridge digest render now post c ctx = (Inr r, c')"
proof -
  let ?data = "PDict [(''tool'', toolName ctx), (''args'', toolArgs ctx), (''persona'', persona ctx)]"
  obtain ko where ko: "(if should_use_cache (toolName ctx)
            then and_then (generate_cache_key digest ''bridge_route'' ?data) (\<lambda>k. Inr (Some k))
            else Inr None) = Inr ko"
  proof (cases "should_use_cache (toolName ctx)")
    case True
    have "generate_cache_key digest ''bridge_route'' ?data = Inr (''bridge_route:'' @ digest ?data)"
      using n a p by (simp add: generate_cache_key_def json_dumps_def and_then_def)
    then show ?thesis using True that by (simp add: and_then_def)
  next
    case False
    then show ?thesis using that by simp
  qed
  obtain got c1 where g: "(case ko of Some k \<Rightarrow> LRUCache_get now k c | None \<Rightarrow> (None, c)) = (got, c1)"
    by (cases "(case ko of Some k \<Rightarrow> LRUCache_get now k c | None \<Rightarrow> (None, c))") auto
  obtain res c2 where t: "route_to_bridge_try digest render now post c1 ctx ko = (res, c2)"
    by (cases "route_to_bridge_try digest render now post c1 ctx ko") auto
  show ?thesis
    using bridge_fallback_response_allows[OF n, of digest render now c2]
    by (cases res) (auto simp: route_to_bridge_def Let_def ko g t)
qed

lemma route_to_bridge_timeout_falls_back:
  assumes n: "toolName ctx = PStr name"
    and a: "json_serializable (toolArgs ctx)" and p: "json_serializable (persona ctx)"
    and miss: "\<forall>k. should_use_cache (toolName ctx) \<longrightarrow>
        \<not> py_truthy (returned_object (fst (LRUCache_get now k c)))"
  shows "\<exists>route c'. route_to_bridge digest render now (PostRaises RequestsTimeout) c ctx
      = (Inr (FallbackDecision True (toolArgs ctx) True route), c')"
proof -
  let ?data = "PDict [(''tool'', toolName ctx), (''args'', toolArgs ctx), (''persona'', persona ctx)]"
  obtain ko where ko: "(if should_use_cache (toolName ctx)
            then and_then (generate_cache_key digest ''bridge_route'' ?data) (\<lambda>k. Inr (Some k))
            else Inr None) = Inr ko"
    and u: "ko \<noteq> None \<longrightarrow> should_use_cache (toolName ctx)"
  proof (cases "should_use_cache (toolName ctx)")
    case True
    have "generate_cache_key digest ''bridge_route'' ?data = Inr (''bridge_route:'' @ digest ?data)"
      using n a p by (simp add: generate_cache_key_def json_dumps_def and_then_def)
    then show ?thesis using True that by (simp add: and_then_def)
  next
    case False
    then show ?thesis using that by simp
  qed
  obtain got c1 where g: "(case ko of Some k \<Rightarrow> LRUCache_get now k c | None \<Rightarrow> (None, c)) = (got, c1)"
    by (cases "(case ko of Some k \<Rightarrow> LRUCache_get now k c | None \<Rightarrow> (None, c))") auto
  have nh: "\<not> (ko \<noteq> None \<and> py_truthy (returned_object got))"
  proof (cases ko)
    case None
    then show ?thesis by simp
  next
    case (Some k)
    with u have "should_use_cache (toolName ctx)" by simp
    with miss have "\<not> py_truthy (returned_object (fst (LRUCache_get now k c)))" by blast
    moreover from g Some have "fst (LRUCache_get now k c) = got" by simp
    ultimately show ?thesis by simp
  qed
  show ?thesis
    using bridge_fallback_response_allows[OF n, of digest render now c1] nh
    by (auto simp: route_to_bridge_def Let_def ko g route_to_bridge_try_def)
qed

text \<open>
  For a tool name that is not a string the fallback response itself raises, inside the
  \<open>except\<close> handlers of \<open>route_to_bridge\<close>: TypeError on a list (unhashable in
  \<open>routing_map.get\<close>), AttributeError on null (no \<open>startswith\<close>).
\<close>

lemma route_to_bridge_raises_on_list_tool_name:
  "fst (route_to_bridge digest render now (PostRaises RequestsTimeout) (LRUCache_init 1000 300)
        \<lparr>toolName = PList [], toolArgs = PDict [], persona = PNone\<rparr>) = Inl TypeError"
  by (simp add: route_to_bridge_def should_use_cache_def generate_cache_key_def json_dumps_def
      and_then_def LRUCache_init_def LRUCache_get_def returned_object_def py_truthy_def
      route_to_bridge_try_def bridge_fallback_response_def select_fallback_route_def
      select_fallback_route_body_def optimize_mcp_routing_def const_dict_get_def hashable_def Let_def)

lemma route_to_bridge_raises_on_null_tool_name:
  "fst (route_to_bridge digest render now (PostRaises RequestsTimeout) (LRUCache_init 1000 300)
        \<lparr>toolName = PNone, toolArgs = PDict [], persona = PNone\<rparr>) = Inl AttributeError"
  by (simp add: route_to_bridge_def should_use_cache_def generate_cache_key_def json_dumps_def
      and_then_def LRUCache_init_def LRUCache_get_def LRUCache_set_def returned_object_def py_truthy_def
      route_to_bridge_try_def bridge_fallback_response_def select_fallback_route_def
      select_fallback_route_body_def optimize_mcp_routing_def const_dict_get_def hashable_def Let_def
      key_in_def od_assign_def popitem_first_def)

end
